theory Spec2Isabelle
  imports Main "HOL-Library.Word" "HOL-Library.Finite_Map"
begin

section \<open>Script chunks and the envelope parser (OrdinalsClient.extractOrdinalContent)\<close>

text \<open>
  A witness item is a Node Buffer, a sequence of bytes. \<^verbatim>\<open>bitcoin.script.decompile\<close>
  turns it into an array whose elements are either an opcode number or a Buffer
  (a data push). The decompiler belongs to bitcoinjs-lib, not to this repository, so it is
  a parameter of the model; its three outcomes are a thrown exception, \<^verbatim>\<open>null\<close>, or a
  chunk array. \<^verbatim>\<open>Buffer.toString('utf8')\<close> is a parameter as well (\<open>toUtf8\<close>).
\<close>

type_synonym byte = "8 word"
type_synonym buffer = "byte list"

datatype chunk = Op nat | Push buffer

datatype thrown = BitcoinError string | JsError string

text \<open>The opcode numbers of \<^verbatim>\<open>bitcoin.opcodes\<close> that the parser compares against.\<close>

definition OP_FALSE :: nat where "OP_FALSE = 0"
definition OP_0 :: nat where "OP_0 = 0"
definition OP_1 :: nat where "OP_1 = 81"
definition OP_IF :: nat where "OP_IF = 99"
definition OP_ENDIF :: nat where "OP_ENDIF = 104"

fun isBuffer :: "chunk \<Rightarrow> bool" where
  "isBuffer (Push b) = True"
| "isBuffer (Op n) = False"

text \<open>\<^verbatim>\<open>decompiled[i]\<close>: an index outside the array reads \<^verbatim>\<open>undefined\<close>, here \<open>None\<close>.\<close>

definition at :: "'a list \<Rightarrow> nat \<Rightarrow> 'a option" where
  "at xs i = (if i < length xs then Some (xs ! i) else None)"

text \<open>
  \<^verbatim>\<open>Array.prototype.findIndex\<close>: the first index whose element and index satisfy the
  predicate; \<open>None\<close> stands for the result \<^verbatim>\<open>-1\<close>.
\<close>

fun findIndexFrom :: "('a \<Rightarrow> nat \<Rightarrow> bool) \<Rightarrow> nat \<Rightarrow> 'a list \<Rightarrow> nat option" where
  "findIndexFrom p i [] = None"
| "findIndexFrom p i (x # xs) = (if p x i then Some i else findIndexFrom p (Suc i) xs)"

definition findIndex :: "('a \<Rightarrow> nat \<Rightarrow> bool) \<Rightarrow> 'a list \<Rightarrow> nat option" where
  "findIndex p xs = findIndexFrom p 0 xs"

record ordinal_content =
  contentType :: string
  content :: buffer

text \<open>Line 123: \<^verbatim>\<open>decompiled.findIndex((op) => op === OP_IF)\<close>.\<close>

definition ifIndexOf :: "chunk list \<Rightarrow> nat option" where
  "ifIndexOf decompiled = findIndex (\<lambda>op idx. op = Op OP_IF) decompiled"

text \<open>Line 125: the first \<^verbatim>\<open>OP_ENDIF\<close> at an index greater than \<open>ifIndex\<close>.\<close>

definition endifIndexOf :: "chunk list \<Rightarrow> nat \<Rightarrow> nat option" where
  "endifIndexOf decompiled ifIndex =
     findIndex (\<lambda>op idx. idx > ifIndex \<and> op = Op OP_ENDIF) decompiled"

text \<open>Line 127: the first Buffer strictly inside the window whose text is \<^verbatim>\<open>'ord'\<close>.\<close>

definition isOrdPush :: "(buffer \<Rightarrow> string) \<Rightarrow> chunk \<Rightarrow> bool" where
  "isOrdPush toUtf8 op = (case op of Push b \<Rightarrow> toUtf8 b = ''ord'' | Op n \<Rightarrow> False)"

definition ordPushIndexOf :: "(buffer \<Rightarrow> string) \<Rightarrow> chunk list \<Rightarrow> nat \<Rightarrow> nat \<Rightarrow> nat option" where
  "ordPushIndexOf toUtf8 decompiled ifIndex endifIndex =
     findIndex (\<lambda>op idx. idx > ifIndex \<and> idx < endifIndex \<and> isOrdPush toUtf8 op) decompiled"

text \<open>
  Lines 129-135: the content type. The chunk after the tag is compared with \<^verbatim>\<open>OP_1\<close> and
  with the number 1; in that branch only the chunk two places after the tag is read, in the
  other branch the chunk right after the tag. The result pairs \<open>contentTypeIndex\<close> with
  \<open>contentType\<close>; \<open>None\<close> is the initial \<^verbatim>\<open>-1\<close>/\<^verbatim>\<open>null\<close> left untouched.
\<close>

definition isFieldTag1 :: "chunk option \<Rightarrow> bool" where
  "isFieldTag1 c = (c = Some (Op OP_1) \<or> c = Some (Op 1))"

definition readContentType ::
  "(buffer \<Rightarrow> string) \<Rightarrow> chunk list \<Rightarrow> nat \<Rightarrow> nat \<Rightarrow> (nat \<times> string) option" where
  "readContentType toUtf8 decompiled ordPushIndex endifIndex =
     (if ordPushIndex + 1 < endifIndex \<and> isFieldTag1 (at decompiled (ordPushIndex + 1))
      then (if ordPushIndex + 2 < endifIndex
            then (case at decompiled (ordPushIndex + 2) of
                    Some (Push b) \<Rightarrow> Some (ordPushIndex + 2, toUtf8 b)
                  | Some (Op n) \<Rightarrow> None
                  | None \<Rightarrow> None)
            else None)
      else (if ordPushIndex + 1 < endifIndex
            then (case at decompiled (ordPushIndex + 1) of
                    Some (Push b) \<Rightarrow> Some (ordPushIndex + 1, toUtf8 b)
                  | Some (Op n) \<Rightarrow> None
                  | None \<Rightarrow> None)
            else None))"

text \<open>Lines 137-142: the body separator right after the content type.\<close>

definition isSeparator :: "chunk \<Rightarrow> bool" where
  "isSeparator nextOp =
     (case nextOp of
        Op n \<Rightarrow> n = OP_0
      | Push b \<Rightarrow> length b = 1 \<and> b ! 0 = 0)"

definition separatorIndexOf :: "chunk list \<Rightarrow> nat \<Rightarrow> nat \<Rightarrow> nat option" where
  "separatorIndexOf decompiled contentTypeIndex endifIndex =
     (if contentTypeIndex + 1 < endifIndex
      then (case at decompiled (contentTypeIndex + 1) of
              Some nextOp \<Rightarrow> (if isSeparator nextOp then Some (contentTypeIndex + 1) else None)
            | None \<Rightarrow> None)
      else None)"

text \<open>
  Lines 144-149: the loop over the data section. Its state is the array \<open>dataChunks\<close>
  together with the indices at which \<^verbatim>\<open>logger.warn\<close> reported an unexpected opcode.
  Building the log line (\<^verbatim>\<open>bitcoin.script.toASM\<close> on the one opcode) and logging it are
  taken not to throw.
\<close>

function collectDataChunks ::
  "chunk list \<Rightarrow> nat \<Rightarrow> nat \<Rightarrow> buffer list \<times> nat list \<Rightarrow> buffer list \<times> nat list" where
  "collectDataChunks decompiled i endifIndex (dataChunks, warned) =
     (if i < endifIndex
      then (case at decompiled i of
              Some (Push b) \<Rightarrow> collectDataChunks decompiled (i + 1) endifIndex (dataChunks @ [b], warned)
            | Some (Op n) \<Rightarrow> collectDataChunks decompiled (i + 1) endifIndex (dataChunks, warned @ [i])
            | None \<Rightarrow> collectDataChunks decompiled (i + 1) endifIndex (dataChunks, warned @ [i]))
      else (dataChunks, warned))"
  by pat_completeness auto
termination
  by (relation "measure (\<lambda>(d, i, e, s). e - i)") auto

text \<open>
  Lines 123-143, every early \<^verbatim>\<open>return null\<close> included: the header of the envelope. On
  success it yields the content type, \<open>separatorIndex\<close> and \<open>endifIndex\<close>.
\<close>

definition envelopeHeader ::
  "(buffer \<Rightarrow> string) \<Rightarrow> chunk list \<Rightarrow> (string \<times> nat \<times> nat) option" where
  "envelopeHeader toUtf8 decompiled =
     (case ifIndexOf decompiled of
        None \<Rightarrow> None
      | Some ifIndex \<Rightarrow>
          if ifIndex = 0 \<or> at decompiled (ifIndex - 1) \<noteq> Some (Op OP_FALSE) then None
          else (case endifIndexOf decompiled ifIndex of
            None \<Rightarrow> None
          | Some endifIndex \<Rightarrow>
              (case ordPushIndexOf toUtf8 decompiled ifIndex endifIndex of
                None \<Rightarrow> None
              | Some ordPushIndex \<Rightarrow>
                  (case readContentType toUtf8 decompiled ordPushIndex endifIndex of
                    None \<Rightarrow> None
                  | Some (contentTypeIndex, ctype) \<Rightarrow>
                      if ctype = [] then None
                      else (case separatorIndexOf decompiled contentTypeIndex endifIndex of
                        None \<Rightarrow> None
                      | Some separatorIndex \<Rightarrow> Some (ctype, separatorIndex, endifIndex))))))"

text \<open>Lines 123-152 on a chunk array: header, data loop, \<^verbatim>\<open>Buffer.concat\<close>.\<close>

definition extractFromChunks :: "(buffer \<Rightarrow> string) \<Rightarrow> chunk list \<Rightarrow> ordinal_content option" where
  "extractFromChunks toUtf8 decompiled =
     (case envelopeHeader toUtf8 decompiled of
        None \<Rightarrow> None
      | Some (ctype, separatorIndex, endifIndex) \<Rightarrow>
          Some \<lparr> contentType = ctype,
                 content = concat (fst (collectDataChunks decompiled (separatorIndex + 1) endifIndex ([], []))) \<rparr>)"

text \<open>
  The \<^verbatim>\<open>try\<close> block (lines 121-152): an exception of the decompiler leaves it as \<open>Inl\<close>,
  a \<^verbatim>\<open>null\<close> result returns \<^verbatim>\<open>null\<close>.
\<close>

definition extractOrdinalContent_try ::
  "(buffer \<Rightarrow> thrown + chunk list option) \<Rightarrow> (buffer \<Rightarrow> string) \<Rightarrow> buffer
     \<Rightarrow> thrown + ordinal_content option" where
  "extractOrdinalContent_try decompile toUtf8 scriptBuffer =
     (case decompile scriptBuffer of
        Inl ex \<Rightarrow> Inl ex
      | Inr None \<Rightarrow> Inr None
      | Inr (Some decompiled) \<Rightarrow> Inr (extractFromChunks toUtf8 decompiled))"

text \<open>The whole method: the \<^verbatim>\<open>catch\<close> clause (lines 153-167) logs and returns \<^verbatim>\<open>null\<close>.\<close>

definition extractOrdinalContent ::
  "(buffer \<Rightarrow> thrown + chunk list option) \<Rightarrow> (buffer \<Rightarrow> string) \<Rightarrow> buffer
     \<Rightarrow> thrown + ordinal_content option" where
  "extractOrdinalContent decompile toUtf8 scriptBuffer =
     (case extractOrdinalContent_try decompile toUtf8 scriptBuffer of
        Inl ex \<Rightarrow> Inr None
      | Inr r \<Rightarrow> Inr r)"

section \<open>The runtime the client runs on\<close>

text \<open>
  Library and platform functions the client calls, taken as parameters:
  \<^verbatim>\<open>bitcoin.script.decompile\<close>, the Buffer conversions, \<^verbatim>\<open>JSON.parse\<close> (which
  throws on a syntax error) with \<^verbatim>\<open>JSON.stringify(v, null, 2)\<close>, the printing of a
  number inside a template string, and the \<^verbatim>\<open>fs\<close>/\<^verbatim>\<open>path\<close> calls of the image branch,
  which act on a file system of type \<open>'fs\<close>. \<open>'j\<close> is the type of parsed JSON values. The
  record also has a field for the repository's \<^verbatim>\<open>handleBlockchainError\<close>, whose definition
  from the source follows further down.
\<close>

record ('j, 'fs) runtime =
  rt_decompile :: "buffer \<Rightarrow> thrown + chunk list option"
  rt_toUtf8 :: "buffer \<Rightarrow> string"
  rt_fromHex :: "string \<Rightarrow> buffer"
  rt_toHex :: "buffer \<Rightarrow> string"
  rt_toBase64 :: "buffer \<Rightarrow> string"
  rt_showNat :: "nat \<Rightarrow> string"
  rt_jsonParse :: "string \<Rightarrow> thrown + 'j"
  rt_jsonStringify :: "'j \<Rightarrow> string"
  rt_handleBlockchainError :: "thrown \<Rightarrow> string \<Rightarrow> string \<Rightarrow> thrown"
  rt_existsSync :: "'fs \<Rightarrow> string \<Rightarrow> bool"
  rt_mkdirSync :: "'fs \<Rightarrow> string \<Rightarrow> thrown + 'fs"
  rt_writeFileSync :: "'fs \<Rightarrow> string \<Rightarrow> buffer \<Rightarrow> thrown + 'fs"
  rt_pathJoin :: "string \<Rightarrow> string \<Rightarrow> string"
  rt_pathResolve :: "string \<Rightarrow> string"

section \<open>The scanner (OrdinalsClient.extractAllOrdinals)\<close>

text \<open>
  Of a Blockstream input the scan reads \<^verbatim>\<open>txid\<close>, \<^verbatim>\<open>vout\<close> and the optional
  \<^verbatim>\<open>witness\<close> array of hex strings; of the transaction it reads \<^verbatim>\<open>txid\<close> and \<^verbatim>\<open>vin\<close>.
  The other fields of the two interfaces play no part in the scan or in the cache and are
  left out of the records.
\<close>

record BlockstreamTxVin =
  vin_txid :: string
  vin_vout :: nat
  vin_witness :: "string list option"

record BlockstreamTx =
  tx_txid :: string
  tx_vin :: "BlockstreamTxVin list"

record sourceInfo =
  inputIndex :: nat
  witnessIndex :: nat
  src_txid :: string
  src_vout :: nat

record ExtractedOrdinal = ordinal_content +
  sourceInfo :: sourceInfo

text \<open>
  The inner \<^verbatim>\<open>forEach\<close> over one witness stack (lines 184-207), with the array
  \<open>extractedOrdinals\<close> as explicit state. An exception inside the \<^verbatim>\<open>try\<close> is caught
  and logged, and the item is skipped.
\<close>

fun scanWitness ::
  "('j, 'fs) runtime \<Rightarrow> BlockstreamTxVin \<Rightarrow> nat \<Rightarrow> nat \<Rightarrow> string list
     \<Rightarrow> ExtractedOrdinal list \<Rightarrow> ExtractedOrdinal list" where
  "scanWitness R input inputIdx witnessIdx [] extractedOrdinals = extractedOrdinals"
| "scanWitness R input inputIdx witnessIdx (witnessHex # rest) extractedOrdinals =
     scanWitness R input inputIdx (Suc witnessIdx) rest
       (case extractOrdinalContent (rt_decompile R) (rt_toUtf8 R) (rt_fromHex R witnessHex) of
          Inr (Some extracted) \<Rightarrow>
            extractedOrdinals @
              [\<lparr> contentType = contentType extracted, content = content extracted,
                  sourceInfo = \<lparr> inputIndex = inputIdx, witnessIndex = witnessIdx,
                                   src_txid = vin_txid input, src_vout = vin_vout input \<rparr> \<rparr>]
        | Inr None \<Rightarrow> extractedOrdinals
        | Inl ex \<Rightarrow> extractedOrdinals)"

text \<open>The outer \<^verbatim>\<open>forEach\<close> over the inputs (lines 182-209).\<close>

fun scanInputs ::
  "('j, 'fs) runtime \<Rightarrow> nat \<Rightarrow> BlockstreamTxVin list \<Rightarrow> ExtractedOrdinal list
     \<Rightarrow> ExtractedOrdinal list" where
  "scanInputs R inputIdx [] extractedOrdinals = extractedOrdinals"
| "scanInputs R inputIdx (input # rest) extractedOrdinals =
     scanInputs R (Suc inputIdx) rest
       (case vin_witness input of
          Some witness \<Rightarrow>
            (if length witness > 0 then scanWitness R input inputIdx 0 witness extractedOrdinals
             else extractedOrdinals)
        | None \<Rightarrow> extractedOrdinals)"

definition extractAllOrdinals :: "('j, 'fs) runtime \<Rightarrow> BlockstreamTx \<Rightarrow> ExtractedOrdinal list" where
  "extractAllOrdinals R txParsed = scanInputs R 0 (tx_vin txParsed) []"

section \<open>The cache (SimpleCache)\<close>

record 'a CacheEntry =
  data :: 'a
  timestamp :: int

record 'a SimpleCache =
  cache :: "(string, 'a CacheEntry) fmap"
  ttlMs :: int

definition SimpleCache_new :: "int \<Rightarrow> 'a SimpleCache" where
  "SimpleCache_new ttlSeconds = \<lparr> cache = fmempty, ttlMs = ttlSeconds * 1000 \<rparr>"

text \<open>
  \<^verbatim>\<open>get\<close> reads the clock (\<open>now\<close> is the value of \<^verbatim>\<open>Date.now()\<close>), deletes an expired
  entry and returns \<^verbatim>\<open>undefined\<close> (\<open>None\<close>) for it; the cache after the call is the second
  component.
\<close>

definition SimpleCache_get :: "int \<Rightarrow> 'a SimpleCache \<Rightarrow> string \<Rightarrow> 'a option \<times> 'a SimpleCache" where
  "SimpleCache_get now c key =
     (case fmlookup (cache c) key of
        None \<Rightarrow> (None, c)
      | Some entry \<Rightarrow>
          if now - timestamp entry > ttlMs c
          then (None, c\<lparr> cache := fmdrop key (cache c) \<rparr>)
          else (Some (data entry), c))"

definition SimpleCache_set :: "int \<Rightarrow> 'a SimpleCache \<Rightarrow> string \<Rightarrow> 'a \<Rightarrow> 'a SimpleCache" where
  "SimpleCache_set now c key d =
     c\<lparr> cache := fmupd key \<lparr> data = d, timestamp = now \<rparr> (cache c) \<rparr>"

definition SimpleCache_delete :: "'a SimpleCache \<Rightarrow> string \<Rightarrow> bool \<times> 'a SimpleCache" where
  "SimpleCache_delete c key = (key |\<in>| fmdom (cache c), c\<lparr> cache := fmdrop key (cache c) \<rparr>)"

definition SimpleCache_has :: "'a SimpleCache \<Rightarrow> string \<Rightarrow> bool" where
  "SimpleCache_has c key = (key |\<in>| fmdom (cache c))"

definition SimpleCache_size :: "'a SimpleCache \<Rightarrow> nat" where
  "SimpleCache_size c = fcard (fmdom (cache c))"

section \<open>The client: fetching, caching, formatting\<close>

record OrdinalInfo =
  isOrdinal :: bool
  ord_type :: string
  ord_data :: string

text \<open>
  \<^verbatim>\<open>buildTransactionWithOrdinal\<close> copies the fields of the fetched transaction under new
  names and adds \<^verbatim>\<open>ordinal\<close>; the copy is kept here as the transaction record itself.
\<close>

record TransactionWithOrdinal =
  tw_tx :: BlockstreamTx
  ordinal :: "OrdinalInfo option"

record TransactionCache =
  basicTransaction :: TransactionWithOrdinal
  extractedOrdinals :: "ExtractedOrdinal list"
  rawHex :: "string option"

text \<open>
  What \<^verbatim>\<open>await fetch(url)\<close> followed by the \<^verbatim>\<open>res.ok\<close> test and the reading of the body can
  do: throw, answer with a status that is not ok (with the outcome of \<^verbatim>\<open>res.text()\<close>), or
  answer ok with the outcome of reading the body.
\<close>

datatype 'a response =
    NetworkError thrown
  | HttpError nat "thrown + string"
  | Body "thrown + 'a"

record network =
  net_tx :: "string \<Rightarrow> BlockstreamTx response"
  net_hex :: "string \<Rightarrow> string response"

text \<open>
  The mutable state: the two fields of the client that change, the file system the image
  branch writes to, and the requests sent so far to the two endpoints of the transaction
  source.
\<close>

record 'fs client =
  transactionCache :: "TransactionCache SimpleCache"
  requestCache :: "string fset"
  imageTempDir :: string
  files :: 'fs
  txRequests :: "string list"
  hexRequests :: "string list"

definition OrdinalsClient_new :: "string \<Rightarrow> 'fs \<Rightarrow> 'fs client" where
  "OrdinalsClient_new dir fs =
     \<lparr> transactionCache = SimpleCache_new 300, requestCache = {||}, imageTempDir = dir,
       files = fs, txRequests = [], hexRequests = [] \<rparr>"

text \<open>
  The \<^verbatim>\<open>catch\<close> clauses of the public methods: a \<^verbatim>\<open>BitcoinError\<close> is rethrown as it is,
  anything else goes through \<^verbatim>\<open>handleBlockchainError\<close>.
\<close>

definition rethrow :: "('j, 'fs) runtime \<Rightarrow> string \<Rightarrow> string \<Rightarrow> thrown \<Rightarrow> thrown" where
  "rethrow R context txid ex =
     (case ex of
        BitcoinError m \<Rightarrow> ex
      | JsError m \<Rightarrow> rt_handleBlockchainError R ex context txid)"

fun message :: "thrown \<Rightarrow> string" where
  "message (BitcoinError m) = m"
| "message (JsError m) = m"

text \<open>
  \<^verbatim>\<open>handleBlockchainError\<close> of \<^verbatim>\<open>utils/error_handlers\<close>: a \<^verbatim>\<open>BitcoinError\<close> is returned as it
  is, any other error becomes a \<^verbatim>\<open>BitcoinError\<close> whose message is the text
  \<^verbatim>\<open>Blockchain API error: \<close> followed by the message of the error; the context and the
  resource id only go to the log. The runtime field \<open>rt_handleBlockchainError\<close> stands for
  this function.
\<close>

definition handleBlockchainError :: "thrown \<Rightarrow> string \<Rightarrow> string \<Rightarrow> thrown" where
  "handleBlockchainError error context resourceId =
     (case error of
        BitcoinError m \<Rightarrow> error
      | JsError errorMessage \<Rightarrow> BitcoinError (''Blockchain API error: '' @ errorMessage))"

definition getRawTransaction ::
  "('j, 'fs) runtime \<Rightarrow> network \<Rightarrow> string \<Rightarrow> thrown + string" where
  "getRawTransaction R N txid =
     (case (case net_hex N txid of
              NetworkError ex \<Rightarrow> Inl ex
            | HttpError status (Inl ex) \<Rightarrow> Inl ex
            | HttpError status (Inr errorText) \<Rightarrow>
                Inl (JsError (''Raw transaction not found: '' @ rt_showNat R status))
            | Body (Inl ex) \<Rightarrow> Inl ex
            | Body (Inr hex) \<Rightarrow>
                if hex = [] then Inl (JsError (''Received empty or invalid raw hex for '' @ txid))
                else Inr hex) of
        Inl ex \<Rightarrow> Inl (rethrow R ''Raw Transaction Fetch'' txid ex)
      | Inr hex \<Rightarrow> Inr hex)"

definition buildTransactionWithOrdinal ::
  "('j, 'fs) runtime \<Rightarrow> BlockstreamTx \<Rightarrow> ExtractedOrdinal list \<Rightarrow> TransactionWithOrdinal" where
  "buildTransactionWithOrdinal R txParsed ords =
     \<lparr> tw_tx = txParsed,
       ordinal = (case ords of
                    [] \<Rightarrow> None
                  | firstOrdinal # rest \<Rightarrow>
                      Some \<lparr> isOrdinal = True, ord_type = contentType firstOrdinal,
                             ord_data = rt_toHex R (content firstOrdinal) \<rparr>) \<rparr>"

text \<open>
  The inner \<^verbatim>\<open>try\<close> block of \<^verbatim>\<open>getTransaction\<close> (lines 310-343). \<open>tStore\<close> is the clock
  reading taken by \<^verbatim>\<open>SimpleCache.set\<close>.
\<close>

definition fetchAndProcess ::
  "('j, 'fs) runtime \<Rightarrow> network \<Rightarrow> int \<Rightarrow> 'fs client \<Rightarrow> string \<Rightarrow> bool
     \<Rightarrow> (thrown + TransactionWithOrdinal) \<times> 'fs client" where
  "fetchAndProcess R N tStore st0 txid includeRaw =
     (let st = st0\<lparr> txRequests := txRequests st0 @ [txid] \<rparr> in
      case net_tx N txid of
        NetworkError ex \<Rightarrow> (Inl ex, st)
      | HttpError status (Inl ex) \<Rightarrow> (Inl ex, st)
      | HttpError status (Inr errorText) \<Rightarrow>
          (Inl (JsError (''Transaction not found: '' @ rt_showNat R status)), st)
      | Body (Inl ex) \<Rightarrow> (Inl ex, st)
      | Body (Inr txParsed) \<Rightarrow>
          (let ords = extractAllOrdinals R txParsed;
               hex = (if includeRaw
                      then (case getRawTransaction R N txid of
                              Inl hexError \<Rightarrow> None
                            | Inr h \<Rightarrow> Some h)
                      else None);
               st' = (if includeRaw then st\<lparr> hexRequests := hexRequests st @ [txid] \<rparr> else st);
               transactionInfo = buildTransactionWithOrdinal R txParsed ords
           in (Inr transactionInfo,
               st'\<lparr> transactionCache :=
                      SimpleCache_set tStore (transactionCache st') txid
                        \<lparr> basicTransaction = transactionInfo, extractedOrdinals = ords,
                          rawHex = hex \<rparr> \<rparr>)))"

text \<open>
  \<^verbatim>\<open>getTransaction\<close> (lines 295-359). \<open>tLookup\<close> is the clock reading of the cache lookup.
  The \<^verbatim>\<open>finally\<close> clause removes the txid from \<open>requestCache\<close> on both exits.
\<close>

definition getTransaction ::
  "('j, 'fs) runtime \<Rightarrow> network \<Rightarrow> int \<Rightarrow> int \<Rightarrow> 'fs client \<Rightarrow> string \<Rightarrow> bool
     \<Rightarrow> (thrown + TransactionWithOrdinal) \<times> 'fs client" where
  "getTransaction R N tLookup tStore st txid includeRaw =
     (case SimpleCache_get tLookup (transactionCache st) txid of
        (Some cached, c1) \<Rightarrow> (Inr (basicTransaction cached), st\<lparr> transactionCache := c1 \<rparr>)
      | (None, c1) \<Rightarrow>
          (case fetchAndProcess R N tStore
                  (st\<lparr> transactionCache := c1, requestCache := finsert txid (requestCache st) \<rparr>)
                  txid includeRaw of
             (Inl ex, st2) \<Rightarrow>
               (Inl (rethrow R ''Transaction Fetch/Process'' txid ex),
                st2\<lparr> requestCache := requestCache st2 |-| {|txid|} \<rparr>)
           | (Inr transactionInfo, st2) \<Rightarrow>
               (Inr transactionInfo, st2\<lparr> requestCache := requestCache st2 |-| {|txid|} \<rparr>)))"

datatype FormatImageOption = Base64 | File

definition getFileExtensionFromMimeType :: "string \<Rightarrow> string" where
  "getFileExtensionFromMimeType mimeType =
     (case map_of
        [(''image/jpeg'', ''.jpg''), (''image/jpg'', ''.jpg''), (''image/png'', ''.png''),
         (''image/gif'', ''.gif''), (''image/webp'', ''.webp''), (''image/svg+xml'', ''.svg''),
         (''image/bmp'', ''.bmp''), (''image/tiff'', ''.tiff''), (''image/x-icon'', ''.ico'')]
        mimeType of
        Some ext \<Rightarrow> ext
      | None \<Rightarrow> ''.bin'')"

text \<open>The two \<^verbatim>\<open>replace\<close> calls on the resolved path (lines 509 and 511).\<close>

definition backslashesToSlashes :: "string \<Rightarrow> string" where
  "backslashesToSlashes p = map (\<lambda>c. if c = CHR 0x5C then CHR ''/'' else c) p"

definition stripFilePrefix :: "string \<Rightarrow> string" where
  "stripFilePrefix p =
     (if take 7 p = ''file://'' then dropWhile (\<lambda>c. c = CHR ''/'') (drop 7 p) else p)"

definition dataUri :: "('j, 'fs) runtime \<Rightarrow> string \<Rightarrow> buffer \<Rightarrow> string" where
  "dataUri R ctype contentBuffer = ''data:'' @ ctype @ '';base64,'' @ rt_toBase64 R contentBuffer"

text \<open>
  The \<^verbatim>\<open>try\<close> block of \<^verbatim>\<open>formatInscriptionContent\<close> (lines 478-541); the file system is
  threaded through. \<open>txid\<close> is optional in the source and is tested for truthiness.
\<close>

definition formatInscriptionContent_try ::
  "('j, 'fs) runtime \<Rightarrow> string \<Rightarrow> 'fs \<Rightarrow> string \<Rightarrow> buffer \<Rightarrow> FormatImageOption
     \<Rightarrow> string option \<Rightarrow> nat \<Rightarrow> (thrown + string) \<times> 'fs" where
  "formatInscriptionContent_try R dir fs ctype contentBuffer formatImageOption txid index =
     (if take 6 ctype = ''image/'' then
        (case txid of
           Some t \<Rightarrow>
             if formatImageOption = File \<and> t \<noteq> [] then
               (case (if \<not> rt_existsSync R fs dir
                      then (case rt_mkdirSync R fs dir of
                              Inl error \<Rightarrow>
                                Inl (JsError (''Failed to create image directory: '' @ message error))
                            | Inr fs1 \<Rightarrow> Inr fs1)
                      else Inr fs) of
                  Inl ex \<Rightarrow> (Inl ex, fs)
                | Inr fs1 \<Rightarrow>
                    (let extension = getFileExtensionFromMimeType ctype;
                         filename = t @ ''_'' @ rt_showNat R index @ extension;
                         filePath = rt_pathJoin R dir filename
                     in case (if \<not> rt_existsSync R fs1 filePath
                              then rt_writeFileSync R fs1 filePath contentBuffer
                              else Inr fs1) of
                          Inl ex \<Rightarrow> (Inl ex, fs1)
                        | Inr fs2 \<Rightarrow>
                            (Inr (stripFilePrefix (backslashesToSlashes (rt_pathResolve R filePath))),
                             fs2)))
             else (Inr (dataUri R ctype contentBuffer), fs)
         | None \<Rightarrow> (Inr (dataUri R ctype contentBuffer), fs))
      else if ctype = ''application/json'' then
        (case rt_jsonParse R (rt_toUtf8 R contentBuffer) of
           Inr jsonData \<Rightarrow> (Inr (rt_jsonStringify R jsonData), fs)
         | Inl e \<Rightarrow> (Inr (rt_toUtf8 R contentBuffer), fs))
      else if take 5 ctype = ''text/'' then (Inr (rt_toUtf8 R contentBuffer), fs)
      else (Inr (dataUri R ctype contentBuffer), fs))"

text \<open>The method with its \<^verbatim>\<open>catch\<close> clause (lines 542-548): any exception becomes \<^verbatim>\<open>null\<close>.\<close>

definition formatInscriptionContent ::
  "('j, 'fs) runtime \<Rightarrow> string \<Rightarrow> 'fs \<Rightarrow> string \<Rightarrow> buffer \<Rightarrow> FormatImageOption
     \<Rightarrow> string option \<Rightarrow> nat \<Rightarrow> string option \<times> 'fs" where
  "formatInscriptionContent R dir fs ctype contentBuffer formatImageOption txid index =
     (case formatInscriptionContent_try R dir fs ctype contentBuffer formatImageOption txid index of
        (Inl ex, fs') \<Rightarrow> (None, fs')
      | (Inr formatted, fs') \<Rightarrow> (Some formatted, fs'))"

text \<open>
  The \<^verbatim>\<open>forEach\<close> of \<^verbatim>\<open>decodeWitness\<close> (lines 431-443) with \<open>decodedData\<close> as state. The
  test \<^verbatim>\<open>if (formattedContent)\<close> is a truthiness test: \<^verbatim>\<open>null\<close> and the empty string fail it.
\<close>

fun formatAll ::
  "('j, 'fs) runtime \<Rightarrow> string \<Rightarrow> FormatImageOption \<Rightarrow> string \<Rightarrow> nat \<Rightarrow> ExtractedOrdinal list
     \<Rightarrow> string list \<times> 'fs \<Rightarrow> string list \<times> 'fs" where
  "formatAll R dir opt txid index [] (decodedData, fs) = (decodedData, fs)"
| "formatAll R dir opt txid index (extracted # rest) (decodedData, fs) =
     (case formatInscriptionContent R dir fs (contentType extracted) (content extracted) opt
             (Some txid) index of
        (Some formattedContent, fs') \<Rightarrow>
          formatAll R dir opt txid (Suc index) rest
            (if formattedContent \<noteq> [] then decodedData @ [formattedContent] else decodedData, fs')
      | (None, fs') \<Rightarrow> formatAll R dir opt txid (Suc index) rest (decodedData, fs'))"

text \<open>Lines 423-446: the early return on an empty array, then the loop.\<close>

definition formatExtracted ::
  "('j, 'fs) runtime \<Rightarrow> FormatImageOption \<Rightarrow> string \<Rightarrow> ExtractedOrdinal list \<Rightarrow> 'fs client
     \<Rightarrow> string list \<times> 'fs client" where
  "formatExtracted R opt txid ords st =
     (if length ords = 0 then ([], st)
      else (case formatAll R (imageTempDir st) opt txid 0 ords ([], files st) of
              (decodedData, fs') \<Rightarrow> (decodedData, st\<lparr> files := fs' \<rparr>)))"

text \<open>
  \<^verbatim>\<open>decodeWitness\<close> (lines 396-457). \<open>tFirst\<close> and \<open>tAgain\<close> are the clock readings of its
  two cache lookups, \<open>tLookup\<close> and \<open>tStore\<close> those of the nested \<^verbatim>\<open>getTransaction\<close>.
\<close>

definition decodeWitness ::
  "('j, 'fs) runtime \<Rightarrow> network \<Rightarrow> int \<Rightarrow> int \<Rightarrow> int \<Rightarrow> int \<Rightarrow> 'fs client \<Rightarrow> string
     \<Rightarrow> FormatImageOption \<Rightarrow> (thrown + string list) \<times> 'fs client" where
  "decodeWitness R N tFirst tLookup tStore tAgain st txid opt =
     (case SimpleCache_get tFirst (transactionCache st) txid of
        (Some cached, c1) \<Rightarrow>
          (case formatExtracted R opt txid (extractedOrdinals cached) (st\<lparr> transactionCache := c1 \<rparr>) of
             (decodedData, st') \<Rightarrow> (Inr decodedData, st'))
      | (None, c1) \<Rightarrow>
          (case getTransaction R N tLookup tStore (st\<lparr> transactionCache := c1 \<rparr>) txid False of
             (Inl ex, st2) \<Rightarrow> (Inl (rethrow R ''Witness Data Decode'' txid ex), st2)
           | (Inr transactionInfo, st2) \<Rightarrow>
               (case SimpleCache_get tAgain (transactionCache st2) txid of
                  (Some newCached, c3) \<Rightarrow>
                    (case formatExtracted R opt txid (extractedOrdinals newCached)
                            (st2\<lparr> transactionCache := c3 \<rparr>) of
                       (decodedData, st') \<Rightarrow> (Inr decodedData, st'))
                | (None, c3) \<Rightarrow>
                    (case formatExtracted R opt txid [] (st2\<lparr> transactionCache := c3 \<rparr>) of
                       (decodedData, st') \<Rightarrow> (Inr decodedData, st')))))"

section \<open>Notions the statements are written in\<close>

text \<open>The data-push tokens of a token sequence, in order, and the part of a sequence
  strictly between two positions.\<close>

fun dataPushes :: "chunk list \<Rightarrow> buffer list" where
  "dataPushes [] = []"
| "dataPushes (Push b # cs) = b # dataPushes cs"
| "dataPushes (Op n # cs) = dataPushes cs"

definition strictlyBetween :: "nat \<Rightarrow> nat \<Rightarrow> 'a list \<Rightarrow> 'a list" where
  "strictlyBetween s e xs = take (e - Suc s) (drop (Suc s) xs)"

text \<open>
  Step 2 of the parser as the specification words it: the first index \<open>i\<close> such that token
  \<open>i\<close> is the branch-open opcode and token \<open>i - 1\<close> is the push-false opcode.
\<close>

definition firstMarkerPair :: "chunk list \<Rightarrow> nat option" where
  "firstMarkerPair toks =
     findIndex (\<lambda>op idx. op = Op OP_IF \<and> 0 < idx \<and> at toks (idx - 1) = Some (Op OP_FALSE)) toks"

text \<open>
  The scan as the specification words it: for every input, for every witness item in stack
  order, the envelope of the item if the parser finds one, tagged with both indices.
\<close>

definition witnessItems :: "BlockstreamTxVin \<Rightarrow> string list" where
  "witnessItems input = (case vin_witness input of None \<Rightarrow> [] | Some ws \<Rightarrow> ws)"

definition parseWitness :: "('j, 'fs) runtime \<Rightarrow> string \<Rightarrow> ordinal_content option" where
  "parseWitness R witnessHex =
     (case extractOrdinalContent (rt_decompile R) (rt_toUtf8 R) (rt_fromHex R witnessHex) of
        Inr (Some extracted) \<Rightarrow> Some extracted
      | Inr None \<Rightarrow> None
      | Inl ex \<Rightarrow> None)"

definition envelopeAt ::
  "BlockstreamTxVin \<Rightarrow> nat \<Rightarrow> nat \<Rightarrow> ordinal_content \<Rightarrow> ExtractedOrdinal" where
  "envelopeAt input i j x =
     \<lparr> contentType = contentType x, content = content x,
       sourceInfo = \<lparr> inputIndex = i, witnessIndex = j,
                        src_txid = vin_txid input, src_vout = vin_vout input \<rparr> \<rparr>"

definition envelopesOfItems ::
  "('j, 'fs) runtime \<Rightarrow> BlockstreamTxVin \<Rightarrow> nat \<Rightarrow> nat \<Rightarrow> string list \<Rightarrow> ExtractedOrdinal list" where
  "envelopesOfItems R input i j0 ws =
     concat (map (\<lambda>(j, w). case parseWitness R w of
                              Some x \<Rightarrow> [envelopeAt input i j x]
                            | None \<Rightarrow> [])
                 (enumerate j0 ws))"

definition envelopesInOrder ::
  "('j, 'fs) runtime \<Rightarrow> nat \<Rightarrow> BlockstreamTxVin list \<Rightarrow> ExtractedOrdinal list" where
  "envelopesInOrder R i0 inputs =
     concat (map (\<lambda>(i, input). envelopesOfItems R input i 0 (witnessItems input))
                 (enumerate i0 inputs))"

definition locatedBefore :: "sourceInfo \<Rightarrow> sourceInfo \<Rightarrow> bool" where
  "locatedBefore a b =
     (inputIndex a < inputIndex b \<or> (inputIndex a = inputIndex b \<and> witnessIndex a < witnessIndex b))"

text \<open>
  The results of the formatting step for each extracted inscription, in order, \<^verbatim>\<open>null\<close>
  results included, with the file system threaded as the loop of \<^verbatim>\<open>decodeWitness\<close> does.
\<close>

fun formatResults ::
  "('j, 'fs) runtime \<Rightarrow> string \<Rightarrow> FormatImageOption \<Rightarrow> string \<Rightarrow> nat \<Rightarrow> ExtractedOrdinal list
     \<Rightarrow> 'fs \<Rightarrow> string option list" where
  "formatResults R dir opt txid index [] fs = []"
| "formatResults R dir opt txid index (extracted # rest) fs =
     (case formatInscriptionContent R dir fs (contentType extracted) (content extracted) opt
             (Some txid) index of
        (r, fs') \<Rightarrow> r # formatResults R dir opt txid (Suc index) rest fs')"

fun nonNull :: "'a option list \<Rightarrow> 'a list" where
  "nonNull [] = []"
| "nonNull (None # rs) = nonNull rs"
| "nonNull (Some r # rs) = r # nonNull rs"

section \<open>A sample runtime for concrete runs\<close>

text \<open>
  Stand-ins for the library functions, used only to run the model on concrete inputs:
  a decompiler for scripts made of opcodes and direct pushes (1 to 75 bytes) that
  minimises pushes the way bitcoinjs-lib does, Latin-1 text for byte strings, hex
  conversions, a JSON parser that accepts the two texts \<open>{}\<close> and \<open>[]\<close>, and a file
  system that is the list of existing paths. The error handler is the repository's own
  \<open>handleBlockchainError\<close>.
\<close>

definition asMinimalOP :: "buffer \<Rightarrow> chunk" where
  "asMinimalOP b =
     (if length b = 0 then Op OP_0
      else if length b \<noteq> 1 then Push b
      else if 1 \<le> unat (b ! 0) \<and> unat (b ! 0) \<le> 16 then Op (80 + unat (b ! 0))
      else if unat (b ! 0) = 129 then Op 79
      else Push b)"

fun sampleDecompile :: "buffer \<Rightarrow> chunk list option" where
  "sampleDecompile [] = Some []"
| "sampleDecompile (opcode # rest) =
     (if 0 < unat opcode \<and> unat opcode \<le> 75 then
        (if length rest < unat opcode then None
         else (case sampleDecompile (drop (unat opcode) rest) of
                 None \<Rightarrow> None
               | Some cs \<Rightarrow> Some (asMinimalOP (take (unat opcode) rest) # cs)))
      else if 76 \<le> unat opcode \<and> unat opcode \<le> 78 then None
      else (case sampleDecompile rest of
              None \<Rightarrow> None
            | Some cs \<Rightarrow> Some (Op (unat opcode) # cs)))"

definition asciiText :: "buffer \<Rightarrow> string" where
  "asciiText b = map (\<lambda>x. char_of (unat x)) b"

definition hexDigit :: "char \<Rightarrow> nat option" where
  "hexDigit c =
     (let n = (of_char c :: nat) in
      if 48 \<le> n \<and> n \<le> 57 then Some (n - 48)
      else if 97 \<le> n \<and> n \<le> 102 then Some (n - 87)
      else if 65 \<le> n \<and> n \<le> 70 then Some (n - 55)
      else None)"

fun sampleFromHex :: "string \<Rightarrow> buffer" where
  "sampleFromHex (a # b # rest) =
     (case (hexDigit a, hexDigit b) of
        (Some x, Some y) \<Rightarrow> of_nat (16 * x + y) # sampleFromHex rest
      | (Some x, None) \<Rightarrow> []
      | (None, y) \<Rightarrow> [])"
| "sampleFromHex [a] = []"
| "sampleFromHex [] = []"

definition sampleToHex :: "buffer \<Rightarrow> string" where
  "sampleToHex b =
     concat (map (\<lambda>x. [''0123456789abcdef'' ! (unat x div 16), ''0123456789abcdef'' ! (unat x mod 16)]) b)"

definition sampleJsonParse :: "string \<Rightarrow> thrown + string" where
  "sampleJsonParse s = (if s = ''{}'' \<or> s = ''[]'' then Inr s else Inl (JsError ''Unexpected token''))"

fun sampleShowNat :: "nat \<Rightarrow> string" where
  "sampleShowNat n =
     (if n < 10 then [''0123456789'' ! n]
      else sampleShowNat (n div 10) @ [''0123456789'' ! (n mod 10)])"

definition sampleRuntime :: "(string, string list) runtime" where
  "sampleRuntime =
     \<lparr> rt_decompile = (\<lambda>b. Inr (sampleDecompile b)),
       rt_toUtf8 = asciiText,
       rt_fromHex = sampleFromHex,
       rt_toHex = sampleToHex,
       rt_toBase64 = sampleToHex,
       rt_showNat = sampleShowNat,
       rt_jsonParse = sampleJsonParse,
       rt_jsonStringify = (\<lambda>j. j),
       rt_handleBlockchainError = handleBlockchainError,
       rt_existsSync = (\<lambda>fs p. List.member fs p),
       rt_mkdirSync = (\<lambda>fs p. Inr (p # fs)),
       rt_writeFileSync = (\<lambda>fs p b. Inr (p # fs)),
       rt_pathJoin = (\<lambda>d f. d @ ''/'' @ f),
       rt_pathResolve = (\<lambda>p. p) \<rparr>"

text \<open>The same runtime on a file system that refuses every write.\<close>

definition readOnlyRuntime :: "(string, string list) runtime" where
  "readOnlyRuntime = sampleRuntime\<lparr> rt_writeFileSync := (\<lambda>fs p b. Inl (JsError ''EROFS'')) \<rparr>"

text \<open>
  Sample witness items. \<open>helloWitness\<close> is the script
  \<^verbatim>\<open>OP_FALSE OP_IF "ord" 01 "text/plain" OP_0 "hello" OP_ENDIF\<close>, \<open>emptyWitness\<close> the same
  envelope with an empty body, \<open>signatureWitness\<close> a push of four bytes.
\<close>

definition helloWitness :: string where
  "helloWitness = ''0063036f726401010a746578742f706c61696e000568656c6c6f68''"

definition emptyWitness :: string where
  "emptyWitness = ''0063036f726401010a746578742f706c61696e0068''"

definition signatureWitness :: string where
  "signatureWitness = ''04deadbeef''"

definition helloChunks :: "chunk list" where
  "helloChunks =
     [Op 0, Op 99, Push [0x6f, 0x72, 0x64], Op 81,
      Push [0x74, 0x65, 0x78, 0x74, 0x2f, 0x70, 0x6c, 0x61, 0x69, 0x6e],
      Op 0, Push [0x68, 0x65, 0x6c, 0x6c, 0x6f], Op 104]"

text \<open>
  More sample scripts: \<open>strayWitness\<close> is \<open>helloWitness\<close> with the body split in two
  pushes around a stray \<^verbatim>\<open>OP_DROP\<close>; \<open>bareWitness\<close> gives the content type as a bare push;
  \<open>tagOnlyWitness\<close> ends right after the tag; \<open>markerChunks\<close> is \<open>helloChunks\<close> behind a
  leading \<^verbatim>\<open>OP_IF\<close>. \<open>failingDecompile\<close> is a decompiler that throws.
\<close>

definition strayWitness :: string where
  "strayWitness = ''0063036f726401010a746578742f706c61696e0002686575036c6c6f68''"

definition strayChunks :: "chunk list" where
  "strayChunks =
     [Op 0, Op 99, Push [0x6f, 0x72, 0x64], Op 81,
      Push [0x74, 0x65, 0x78, 0x74, 0x2f, 0x70, 0x6c, 0x61, 0x69, 0x6e],
      Op 0, Push [0x68, 0x65], Op 117, Push [0x6c, 0x6c, 0x6f], Op 104]"

definition bareWitness :: string where
  "bareWitness = ''0063036f72640a746578742f706c61696e000568656c6c6f68''"

definition bareChunks :: "chunk list" where
  "bareChunks =
     [Op 0, Op 99, Push [0x6f, 0x72, 0x64],
      Push [0x74, 0x65, 0x78, 0x74, 0x2f, 0x70, 0x6c, 0x61, 0x69, 0x6e],
      Op 0, Push [0x68, 0x65, 0x6c, 0x6c, 0x6f], Op 104]"

definition tagOnlyWitness :: string where
  "tagOnlyWitness = ''0063036f726468''"

definition tagOnlyChunks :: "chunk list" where
  "tagOnlyChunks = [Op 0, Op 99, Push [0x6f, 0x72, 0x64], Op 104]"

definition textPlainBytes :: buffer where
  "textPlainBytes = [0x74, 0x65, 0x78, 0x74, 0x2f, 0x70, 0x6c, 0x61, 0x69, 0x6e]"

definition markerChunks :: "chunk list" where
  "markerChunks = Op 99 # helloChunks"

definition failingDecompile :: "buffer \<Rightarrow> thrown + chunk list option" where
  "failingDecompile b = Inl (JsError ''decompile failed'')"

text \<open>The fetch from the transaction source fails: anything but an ok response with a
  readable body.\<close>

definition fetchFails :: "network \<Rightarrow> string \<Rightarrow> bool" where
  "fetchFails N txid = (case net_tx N txid of Body (Inr txParsed) \<Rightarrow> False | _ \<Rightarrow> True)"


text \<open>
  Sample transactions, a sample transaction source and a fresh client. \<open>pngWitness\<close> is an
  envelope of type \<^verbatim>\<open>image/png\<close>; \<open>sampleTx\<close> has four inputs, the second without a
  witness field and the third with an empty one; \<open>plainTx\<close> has no envelope at all;
  \<open>emptyTx\<close> holds one envelope with an empty body. \<open>cachedClient\<close> is the client after a
  first successful \<^verbatim>\<open>getTransaction\<close> whose cache write happened at clock reading 1200.
\<close>

definition pngWitness :: string where
  "pngWitness = ''0063036f7264010109696d6167652f706e670002895068''"

definition sampleTx :: BlockstreamTx where
  "sampleTx =
     \<lparr> tx_txid = ''ef'',
       tx_vin = [\<lparr> vin_txid = ''c0'', vin_vout = 0,
                   vin_witness = Some [helloWitness, signatureWitness, emptyWitness] \<rparr>,
                 \<lparr> vin_txid = ''c1'', vin_vout = 1, vin_witness = None \<rparr>,
                 \<lparr> vin_txid = ''c2'', vin_vout = 0, vin_witness = Some [] \<rparr>,
                 \<lparr> vin_txid = ''c3'', vin_vout = 2,
                   vin_witness = Some [pngWitness, helloWitness] \<rparr>] \<rparr>"

definition plainTx :: BlockstreamTx where
  "plainTx =
     \<lparr> tx_txid = ''aa'',
       tx_vin = [\<lparr> vin_txid = ''c0'', vin_vout = 0,
                   vin_witness = Some [signatureWitness, signatureWitness] \<rparr>,
                 \<lparr> vin_txid = ''c1'', vin_vout = 1, vin_witness = None \<rparr>] \<rparr>"

definition emptyTx :: BlockstreamTx where
  "emptyTx =
     \<lparr> tx_txid = ''ab'',
       tx_vin = [\<lparr> vin_txid = ''cd'', vin_vout = 0,
                   vin_witness = Some [signatureWitness, emptyWitness] \<rparr>] \<rparr>"

definition sampleNetwork :: network where
  "sampleNetwork =
     \<lparr> net_tx = (\<lambda>t. if t = ''ab'' then Body (Inr emptyTx)
                      else if t = ''ef'' then Body (Inr sampleTx)
                      else HttpError 404 (Inr ''Transaction not found'')),
       net_hex = (\<lambda>t. HttpError 404 (Inr ''Transaction not found'')) \<rparr>"

definition sampleClient :: "string list client" where
  "sampleClient = OrdinalsClient_new ''/tmp'' [''/tmp'']"

definition cachedClient :: "string list client" where
  "cachedClient = snd (getTransaction sampleRuntime sampleNetwork 1000 1200 sampleClient ''ab'' False)"

definition cachedInfo :: TransactionWithOrdinal where
  "cachedInfo = buildTransactionWithOrdinal sampleRuntime emptyTx (extractAllOrdinals sampleRuntime emptyTx)"


section \<open>Facts about findIndex and the data loop\<close>

lemma findIndexFrom_Some:
  "findIndexFrom p k xs = Some i \<Longrightarrow>
     k \<le> i \<and> i < k + length xs \<and> p (xs ! (i - k)) i \<and> (\<forall>j. k \<le> j \<and> j < i \<longrightarrow> \<not> p (xs ! (j - k)) j)"
proof (induction xs arbitrary: k)
  case Nil
  then show ?case by simp
next
  case (Cons x xs)
  show ?case
  proof (cases "p x k")
    case True
    with Cons.prems show ?thesis by auto
  next
    case False
    with Cons.prems have r: "findIndexFrom p (Suc k) xs = Some i" by simp
    from Cons.IH[OF r] have a: "Suc k \<le> i" and b: "i < Suc k + length xs"
      and c: "p (xs ! (i - Suc k)) i"
      and d: "\<forall>j. Suc k \<le> j \<and> j < i \<longrightarrow> \<not> p (xs ! (j - Suc k)) j" by auto
    have e: "(x # xs) ! (i - k) = xs ! (i - Suc k)" using a by (simp add: nth_Cons')
    have f: "\<forall>j. k \<le> j \<and> j < i \<longrightarrow> \<not> p ((x # xs) ! (j - k)) j"
    proof (intro allI impI)
      fix j assume j: "k \<le> j \<and> j < i"
      show "\<not> p ((x # xs) ! (j - k)) j"
      proof (cases "j = k")
        case True then show ?thesis using False by simp
      next
        case False
        then have "Suc k \<le> j" using j by simp
        moreover have "(x # xs) ! (j - k) = xs ! (j - Suc k)" using \<open>Suc k \<le> j\<close> by (simp add: nth_Cons')
        ultimately show ?thesis using d j by simp
      qed
    qed
    show ?thesis using a b c e f by simp
  qed
qed

lemma findIndexFrom_None:
  "findIndexFrom p k xs = None \<longleftrightarrow> (\<forall>j<length xs. \<not> p (xs ! j) (k + j))"
proof (induction xs arbitrary: k)
  case Nil
  then show ?case by simp
next
  case (Cons x xs)
  show ?case
  proof (cases "p x k")
    case True
    then show ?thesis by auto
  next
    case False
    have "(\<forall>j<length (x # xs). \<not> p ((x # xs) ! j) (k + j)) \<longleftrightarrow> (\<forall>j<length xs. \<not> p (xs ! j) (Suc k + j))"
      using False by (auto simp: All_less_Suc2)
    then show ?thesis using False Cons.IH[of "Suc k"] by simp
  qed
qed

lemma findIndex_Some:
  "findIndex p xs = Some i \<Longrightarrow> i < length xs \<and> p (xs ! i) i \<and> (\<forall>j<i. \<not> p (xs ! j) j)"
  using findIndexFrom_Some[of p 0 xs i] by (simp add: findIndex_def)

lemma findIndex_None:
  "findIndex p xs = None \<longleftrightarrow> (\<forall>j<length xs. \<not> p (xs ! j) j)"
  using findIndexFrom_None[of p 0 xs] by (simp add: findIndex_def)

lemma dataPushes_append: "dataPushes (xs @ ys) = dataPushes xs @ dataPushes ys"
  by (induction xs rule: dataPushes.induct) auto

lemma take_Suc_drop: "i < length xs \<Longrightarrow> take (Suc n) (drop i xs) = xs ! i # take n (drop (Suc i) xs)"
  by (metis Cons_nth_drop_Suc take_Suc_Cons)

lemma collectDataChunks_fst:
  "e \<le> length d \<Longrightarrow> fst (collectDataChunks d i e (dc, w)) = dc @ dataPushes (take (e - i) (drop i d))"
proof (induction "e - i" arbitrary: i dc w)
  case 0
  then show ?case by simp
next
  case (Suc n)
  then have lt: "i < e" and il: "i < length d" and n: "n = e - Suc i" by auto
  have sl: "take (e - i) (drop i d) = d ! i # take (e - Suc i) (drop (Suc i) d)"
    using take_Suc_drop[OF il, of "e - Suc i"] lt by (simp add: Suc_diff_Suc)
  show ?case
  proof (cases "d ! i")
    case (Op k)
    then show ?thesis using lt il sl Suc.hyps(1)[OF n Suc.prems, of dc "w @ [i]"] by (simp add: at_def)
  next
    case (Push b)
    then show ?thesis using lt il sl Suc.hyps(1)[OF n Suc.prems, of "dc @ [b]" w] by (simp add: at_def)
  qed
qed

lemma collectDataChunks_snd:
  "e \<le> length d \<Longrightarrow> snd (collectDataChunks d i e (dc, w)) = w @ filter (\<lambda>j. \<not> isBuffer (d ! j)) [i..<e]"
proof (induction "e - i" arbitrary: i dc w)
  case 0
  then show ?case by simp
next
  case (Suc n)
  then have lt: "i < e" and il: "i < length d" and n: "n = e - Suc i" by auto
  have sl: "[i..<e] = i # [Suc i..<e]" using lt by (simp add: upt_conv_Cons)
  show ?case
  proof (cases "d ! i")
    case (Op k)
    then show ?thesis using lt il sl Suc.hyps(1)[OF n Suc.prems, of dc "w @ [i]"] by (simp add: at_def)
  next
    case (Push b)
    then show ?thesis using lt il sl Suc.hyps(1)[OF n Suc.prems, of "dc @ [b]" w] by (simp add: at_def)
  qed
qed

lemma ifIndexOf_SomeD:
  "ifIndexOf d = Some i \<Longrightarrow> i < length d \<and> d ! i = Op OP_IF \<and> (\<forall>j<i. d ! j \<noteq> Op OP_IF)"
  unfolding ifIndexOf_def by (drule findIndex_Some) simp

lemma endifIndexOf_SomeD:
  "endifIndexOf d i = Some e \<Longrightarrow>
     i < e \<and> e < length d \<and> d ! e = Op OP_ENDIF \<and> (\<forall>j. i < j \<and> j < e \<longrightarrow> d ! j \<noteq> Op OP_ENDIF)"
  unfolding endifIndexOf_def by (drule findIndex_Some) auto

lemma ordPushIndexOf_SomeD:
  "ordPushIndexOf u d i e = Some k \<Longrightarrow>
     i < k \<and> k < e \<and> k < length d \<and> isOrdPush u (d ! k) \<and> (\<forall>j. i < j \<and> j < k \<longrightarrow> \<not> isOrdPush u (d ! j))"
  unfolding ordPushIndexOf_def by (drule findIndex_Some) auto

lemma readContentType_SomeD:
  assumes "readContentType u d k e = Some (c, ct)" and "e \<le> length d"
  shows "(isFieldTag1 (Some (d ! (k + 1))) \<and> c = k + 2 \<or> \<not> isFieldTag1 (Some (d ! (k + 1))) \<and> c = k + 1)
         \<and> c < e \<and> (\<exists>b. d ! c = Push b \<and> ct = u b)"
  using assms
  by (auto simp: readContentType_def at_def split: if_splits option.splits chunk.splits)

lemma separatorIndexOf_SomeD:
  assumes "separatorIndexOf d c e = Some s" and "e \<le> length d"
  shows "s = c + 1 \<and> s < e \<and> isSeparator (d ! s)"
  using assms
  by (auto simp: separatorIndexOf_def at_def split: if_splits option.splits)

lemma envelopeHeader_SomeD:
  assumes "envelopeHeader u d = Some (ct, s, e)"
  shows "\<exists>i k c. ifIndexOf d = Some i \<and> 0 < i \<and> d ! (i - 1) = Op OP_FALSE
           \<and> endifIndexOf d i = Some e \<and> ordPushIndexOf u d i e = Some k
           \<and> readContentType u d k e = Some (c, ct) \<and> ct \<noteq> []
           \<and> separatorIndexOf d c e = Some s"
proof -
  from assms obtain i where i: "ifIndexOf d = Some i"
    by (auto simp: envelopeHeader_def split: option.splits)
  from assms i have g: "0 < i" "at d (i - 1) = Some (Op OP_FALSE)"
    by (auto simp: envelopeHeader_def split: option.splits if_splits)
  from ifIndexOf_SomeD[OF i] g have f: "d ! (i - 1) = Op OP_FALSE"
    by (auto simp: at_def split: if_splits)
  from assms i g obtain e' where e': "endifIndexOf d i = Some e'"
    by (auto simp: envelopeHeader_def split: option.splits if_splits)
  from assms i g e' obtain k where k: "ordPushIndexOf u d i e' = Some k"
    by (auto simp: envelopeHeader_def split: option.splits if_splits)
  from assms i g e' k obtain c ct' where c: "readContentType u d k e' = Some (c, ct')"
    by (auto simp: envelopeHeader_def split: option.splits if_splits)
  from assms i g e' k c have ne: "ct' \<noteq> []"
    by (auto simp: envelopeHeader_def split: option.splits if_splits)
  from assms i g e' k c ne obtain s' where s': "separatorIndexOf d c e' = Some s'"
    by (auto simp: envelopeHeader_def split: option.splits if_splits)
  from assms i g e' k c ne s' have "ct' = ct" "s' = s" "e' = e"
    by (auto simp: envelopeHeader_def split: option.splits if_splits)
  with i g f e' k c ne s' show ?thesis by auto
qed

lemma envelopeHeader_bounds:
  assumes "envelopeHeader u d = Some (ct, s, e)"
  shows "s < e \<and> e < length d \<and> isSeparator (d ! s) \<and> d ! e = Op OP_ENDIF
         \<and> (\<forall>j. s < j \<and> j < e \<longrightarrow> d ! j \<noteq> Op OP_ENDIF)"
proof -
  from envelopeHeader_SomeD[OF assms] obtain i k c where
    i: "ifIndexOf d = Some i" and e: "endifIndexOf d i = Some e"
    and k: "ordPushIndexOf u d i e = Some k" and c: "readContentType u d k e = Some (c, ct)"
    and s: "separatorIndexOf d c e = Some s" by blast
  note E = endifIndexOf_SomeD[OF e]
  note K = ordPushIndexOf_SomeD[OF k]
  from E have le: "e \<le> length d" by simp
  note C = readContentType_SomeD[OF c le]
  note S = separatorIndexOf_SomeD[OF s le]
  have "i < s" using K C S by auto
  then show ?thesis using E S by auto
qed

lemma extractFromChunks_Some:
  assumes "envelopeHeader u d = Some (ct, s, e)"
  shows "extractFromChunks u d =
           Some \<lparr> contentType = ct, content = concat (dataPushes (strictlyBetween s e d)) \<rparr>"
proof -
  from envelopeHeader_bounds[OF assms] have "e \<le> length d" by simp
  from collectDataChunks_fst[OF this, of "Suc s" "[]" "[]"] assms
  show ?thesis by (simp add: extractFromChunks_def strictlyBetween_def)
qed


lemma extractOrdinalContent_chunks:
  "decompile scriptBuffer = Inr (Some toks) \<Longrightarrow>
     extractOrdinalContent decompile toUtf8 scriptBuffer = Inr (extractFromChunks toUtf8 toks)"
  by (simp add: extractOrdinalContent_def extractOrdinalContent_try_def)

lemma ifIndexOf_None: "ifIndexOf d = None \<longleftrightarrow> (\<forall>j<length d. d ! j \<noteq> Op OP_IF)"
  unfolding ifIndexOf_def by (simp add: findIndex_None)

lemma envelopeHeader_no_marker:
  assumes "ifIndexOf toks = None \<or> ifIndexOf toks = Some 0
           \<or> (\<exists>i. ifIndexOf toks = Some i \<and> 0 < i \<and> toks ! (i - 1) \<noteq> Op OP_FALSE)"
  shows "envelopeHeader toUtf8 toks = None"
proof -
  { fix i assume i: "ifIndexOf toks = Some i" and p: "0 < i" and n: "toks ! (i - 1) \<noteq> Op OP_FALSE"
    from ifIndexOf_SomeD[OF i] p have "i - 1 < length toks" by arith
    with n have "at toks (i - 1) \<noteq> Some (Op OP_FALSE)" by (simp add: at_def)
    with i have "envelopeHeader toUtf8 toks = None" by (simp add: envelopeHeader_def) }
  with assms show ?thesis by (auto simp: envelopeHeader_def)
qed

lemma no_pair_no_marker:
  assumes "\<forall>i. Suc i < length toks \<longrightarrow> \<not> (toks ! i = Op OP_FALSE \<and> toks ! Suc i = Op OP_IF)"
  shows "ifIndexOf toks = None \<or> ifIndexOf toks = Some 0
           \<or> (\<exists>i. ifIndexOf toks = Some i \<and> 0 < i \<and> toks ! (i - 1) \<noteq> Op OP_FALSE)"
proof (cases "ifIndexOf toks")
  case None
  then show ?thesis by simp
next
  case (Some i)
  show ?thesis
  proof (cases i)
    case 0
    with Some show ?thesis by simp
  next
    case (Suc m)
    from ifIndexOf_SomeD[OF Some] Suc have "Suc m < length toks" "toks ! Suc m = Op OP_IF" by auto
    with assms have "toks ! m \<noteq> Op OP_FALSE" by blast
    with Some Suc show ?thesis by simp
  qed
qed


lemma envelopeHeader_SomeI:
  assumes i: "ifIndexOf toks = Some i" and p: "0 < i" and f: "toks ! (i - 1) = Op OP_FALSE"
    and e: "endifIndexOf toks i = Some e" and k: "ordPushIndexOf toUtf8 toks i e = Some k"
    and c: "readContentType toUtf8 toks k e = Some (c, ct)" and ne: "ct \<noteq> []"
    and s: "c + 1 < e" and sep: "isSeparator (toks ! (c + 1))"
  shows "envelopeHeader toUtf8 toks = Some (ct, c + 1, e)"
proof -
  from ifIndexOf_SomeD[OF i] p have "i - 1 < length toks" by arith
  with f have a: "at toks (i - 1) = Some (Op OP_FALSE)" by (simp add: at_def)
  from endifIndexOf_SomeD[OF e] s have "c + 1 < length toks" by simp
  with s sep have sp: "separatorIndexOf toks c e = Some (c + 1)"
    by (simp add: separatorIndexOf_def at_def)
  show ?thesis using i p a e k c ne sp by (simp add: envelopeHeader_def)
qed

lemma readContentType_tagged:
  assumes "toks ! (k + 1) = Op OP_1 \<or> toks ! (k + 1) = Op 1" and "k + 2 < e" and "e \<le> length toks"
    and "toks ! (k + 2) = Push b"
  shows "readContentType toUtf8 toks k e = Some (k + 2, toUtf8 b)"
  using assms by (auto simp: readContentType_def at_def isFieldTag1_def)

lemma readContentType_bare:
  assumes "k + 1 < e" and "e \<le> length toks" and "toks ! (k + 1) = Push b"
  shows "readContentType toUtf8 toks k e = Some (k + 1, toUtf8 b)"
  using assms by (auto simp: readContentType_def at_def isFieldTag1_def)


section \<open>The envelope parser\<close>

text \<open>
  Claim C1. Whenever a buffer parses to an inscription, the payload is the concatenation,
  in token order, of the bytes of the data pushes strictly between the body separator (at
  index \<open>s\<close>) and the closing \<^verbatim>\<open>OP_ENDIF\<close> (at index \<open>e\<close>, with no other \<^verbatim>\<open>OP_ENDIF\<close> in
  between). The tokens of that region that are not data pushes are exactly the ones the
  loop warns about; they are left out of the payload, and they never make the parse fail:
  once the header is found, the result is an inscription whatever the region holds.
\<close>

theorem extractOrdinalContent_payload:
  "(extractOrdinalContent decompile toUtf8 scriptBuffer = Inr (Some r) \<longrightarrow>
      (\<exists>decompiled ctype s e.
          decompile scriptBuffer = Inr (Some decompiled)
        \<and> envelopeHeader toUtf8 decompiled = Some (ctype, s, e)
        \<and> s < e \<and> e < length decompiled
        \<and> isSeparator (decompiled ! s) \<and> decompiled ! e = Op OP_ENDIF
        \<and> (\<forall>j. s < j \<and> j < e \<longrightarrow> decompiled ! j \<noteq> Op OP_ENDIF)
        \<and> content r = concat (dataPushes (strictlyBetween s e decompiled))
        \<and> snd (collectDataChunks decompiled (s + 1) e ([], []))
            = filter (\<lambda>j. \<not> isBuffer (decompiled ! j)) [s + 1 ..< e]))
   \<and> (\<forall>decompiled ctype s e.
          decompile scriptBuffer = Inr (Some decompiled)
        \<and> envelopeHeader toUtf8 decompiled = Some (ctype, s, e) \<longrightarrow>
          extractOrdinalContent decompile toUtf8 scriptBuffer
            = Inr (Some \<lparr> contentType = ctype,
                           content = concat (dataPushes (strictlyBetween s e decompiled)) \<rparr>))"
proof (intro conjI impI allI)
  assume a: "extractOrdinalContent decompile toUtf8 scriptBuffer = Inr (Some r)"
  then obtain d where d: "decompile scriptBuffer = Inr (Some d)"
    and x: "extractFromChunks toUtf8 d = Some r"
    by (auto simp: extractOrdinalContent_def extractOrdinalContent_try_def
             split: sum.splits option.splits)
  from x obtain ct s e where h: "envelopeHeader toUtf8 d = Some (ct, s, e)"
    by (auto simp: extractFromChunks_def split: option.splits)
  note B = envelopeHeader_bounds[OF h]
  from extractFromChunks_Some[OF h] x
  have r: "content r = concat (dataPushes (strictlyBetween s e d))" by auto
  from B have "e \<le> length d" by simp
  from collectDataChunks_snd[OF this, of "s + 1" "[]" "[]"]
  have w: "snd (collectDataChunks d (s + 1) e ([], [])) = filter (\<lambda>j. \<not> isBuffer (d ! j)) [s + 1 ..< e]"
    by simp
  show "\<exists>decompiled ctype s e.
          decompile scriptBuffer = Inr (Some decompiled)
        \<and> envelopeHeader toUtf8 decompiled = Some (ctype, s, e)
        \<and> s < e \<and> e < length decompiled
        \<and> isSeparator (decompiled ! s) \<and> decompiled ! e = Op OP_ENDIF
        \<and> (\<forall>j. s < j \<and> j < e \<longrightarrow> decompiled ! j \<noteq> Op OP_ENDIF)
        \<and> content r = concat (dataPushes (strictlyBetween s e decompiled))
        \<and> snd (collectDataChunks decompiled (s + 1) e ([], []))
            = filter (\<lambda>j. \<not> isBuffer (decompiled ! j)) [s + 1 ..< e]"
    using d h B r w by blast
next
  fix d ct s e
  assume "decompile scriptBuffer = Inr (Some d) \<and> envelopeHeader toUtf8 d = Some (ct, s, e)"
  then show "extractOrdinalContent decompile toUtf8 scriptBuffer
            = Inr (Some \<lparr> contentType = ct, content = concat (dataPushes (strictlyBetween s e d)) \<rparr>)"
    using extractFromChunks_Some[of toUtf8 d ct s e]
    by (simp add: extractOrdinalContent_def extractOrdinalContent_try_def)
qed

theorem extractOrdinalContent_payload_witness:
  "rt_decompile sampleRuntime (sampleFromHex strayWitness) = Inr (Some strayChunks)
   \<and> envelopeHeader asciiText strayChunks = Some (''text/plain'', 5, 9)
   \<and> extractOrdinalContent (rt_decompile sampleRuntime) asciiText (sampleFromHex strayWitness)
       = Inr (Some \<lparr> contentType = ''text/plain'', content = [0x68, 0x65, 0x6c, 0x6c, 0x6f] \<rparr>)
   \<and> (\<exists>decompiled s e.
          rt_decompile sampleRuntime (sampleFromHex strayWitness) = Inr (Some decompiled)
        \<and> [0x68, 0x65, 0x6c, 0x6c, 0x6f] = concat (dataPushes (strictlyBetween s e decompiled))
        \<and> snd (collectDataChunks decompiled (s + 1) e ([], []))
            = filter (\<lambda>j. \<not> isBuffer (decompiled ! j)) [s + 1 ..< e])"
proof -
  let ?D = "rt_decompile sampleRuntime" and ?B = "sampleFromHex strayWitness"
  let ?r = "\<lparr> contentType = ''text/plain'', content = [0x68, 0x65, 0x6c, 0x6c, 0x6f] \<rparr>"
  have d: "?D ?B = Inr (Some strayChunks)" by code_simp
  have h: "envelopeHeader asciiText strayChunks = Some (''text/plain'', 5, 9)" by code_simp
  have c: "concat (dataPushes (strictlyBetween 5 9 strayChunks)) = [0x68, 0x65, 0x6c, 0x6c, 0x6f]"
    by code_simp
  note T = extractOrdinalContent_payload[of ?D asciiText ?B ?r]
  from T d h have "extractOrdinalContent ?D asciiText ?B
      = Inr (Some \<lparr> contentType = ''text/plain'',
                     content = concat (dataPushes (strictlyBetween 5 9 strayChunks)) \<rparr>)"
    by blast
  with c have x: "extractOrdinalContent ?D asciiText ?B = Inr (Some ?r)" by simp
  with T have "\<exists>decompiled ctype s e.
          ?D ?B = Inr (Some decompiled)
        \<and> envelopeHeader asciiText decompiled = Some (ctype, s, e)
        \<and> s < e \<and> e < length decompiled
        \<and> isSeparator (decompiled ! s) \<and> decompiled ! e = Op OP_ENDIF
        \<and> (\<forall>j. s < j \<and> j < e \<longrightarrow> decompiled ! j \<noteq> Op OP_ENDIF)
        \<and> content ?r = concat (dataPushes (strictlyBetween s e decompiled))
        \<and> snd (collectDataChunks decompiled (s + 1) e ([], []))
            = filter (\<lambda>j. \<not> isBuffer (decompiled ! j)) [s + 1 ..< e]"
    by blast
  then have "\<exists>decompiled s e.
          ?D ?B = Inr (Some decompiled)
        \<and> [0x68, 0x65, 0x6c, 0x6c, 0x6f] = concat (dataPushes (strictlyBetween s e decompiled))
        \<and> snd (collectDataChunks decompiled (s + 1) e ([], []))
            = filter (\<lambda>j. \<not> isBuffer (decompiled ! j)) [s + 1 ..< e]"
    by (simp only: ordinal_content.select_convs) blast
  with d h x show ?thesis by blast
qed

text \<open>
  Claim C2, as amended. The parser locates the first \<^verbatim>\<open>OP_IF\<close> token (not the first
  \<^verbatim>\<open>OP_FALSE OP_IF\<close> pair). If there is no \<^verbatim>\<open>OP_IF\<close>, or the first one is at index 0, or the
  token before the first one is not \<^verbatim>\<open>OP_FALSE\<close>, the result is \<^verbatim>\<open>null\<close>. In particular a
  token sequence that nowhere has \<^verbatim>\<open>OP_FALSE\<close> directly followed by \<^verbatim>\<open>OP_IF\<close> yields
  \<^verbatim>\<open>null\<close>.
\<close>

theorem extractOrdinalContent_marker:
  assumes "decompile scriptBuffer = Inr (Some toks)"
  shows "(\<forall>i. ifIndexOf toks = Some i \<longrightarrow>
            i < length toks \<and> toks ! i = Op OP_IF \<and> (\<forall>j<i. toks ! j \<noteq> Op OP_IF))
       \<and> (ifIndexOf toks = None \<longleftrightarrow> (\<forall>j<length toks. toks ! j \<noteq> Op OP_IF))
       \<and> (ifIndexOf toks = None \<or> ifIndexOf toks = Some 0
            \<or> (\<exists>i. ifIndexOf toks = Some i \<and> 0 < i \<and> toks ! (i - 1) \<noteq> Op OP_FALSE)
          \<longrightarrow> extractOrdinalContent decompile toUtf8 scriptBuffer = Inr None)
       \<and> ((\<forall>i. Suc i < length toks \<longrightarrow> \<not> (toks ! i = Op OP_FALSE \<and> toks ! Suc i = Op OP_IF))
          \<longrightarrow> extractOrdinalContent decompile toUtf8 scriptBuffer = Inr None)"
proof -
  have x: "extractOrdinalContent decompile toUtf8 scriptBuffer = Inr (extractFromChunks toUtf8 toks)"
    using assms by (rule extractOrdinalContent_chunks)
  have a: "\<forall>i. ifIndexOf toks = Some i \<longrightarrow>
            i < length toks \<and> toks ! i = Op OP_IF \<and> (\<forall>j<i. toks ! j \<noteq> Op OP_IF)"
    using ifIndexOf_SomeD by blast
  have b: "ifIndexOf toks = None \<longleftrightarrow> (\<forall>j<length toks. toks ! j \<noteq> Op OP_IF)"
    by (rule ifIndexOf_None)
  have c: "ifIndexOf toks = None \<or> ifIndexOf toks = Some 0
            \<or> (\<exists>i. ifIndexOf toks = Some i \<and> 0 < i \<and> toks ! (i - 1) \<noteq> Op OP_FALSE)
          \<longrightarrow> extractOrdinalContent decompile toUtf8 scriptBuffer = Inr None"
    using envelopeHeader_no_marker[of toks toUtf8] x by (simp add: extractFromChunks_def)
  have d: "(\<forall>i. Suc i < length toks \<longrightarrow> \<not> (toks ! i = Op OP_FALSE \<and> toks ! Suc i = Op OP_IF))
          \<longrightarrow> extractOrdinalContent decompile toUtf8 scriptBuffer = Inr None"
    using envelopeHeader_no_marker[OF no_pair_no_marker, of toks toUtf8] x
    by (simp add: extractFromChunks_def)
  from a b c d show ?thesis by blast
qed


theorem extractOrdinalContent_marker_witness:
  "rt_decompile sampleRuntime (sampleFromHex signatureWitness) = Inr (Some [Push [0xde, 0xad, 0xbe, 0xef]])
   \<and> ifIndexOf [Push [0xde, 0xad, 0xbe, 0xef]] = None
   \<and> extractOrdinalContent (rt_decompile sampleRuntime) asciiText (sampleFromHex signatureWitness) = Inr None
   \<and> rt_decompile sampleRuntime (sampleFromHex (''63'' @ helloWitness)) = Inr (Some markerChunks)
   \<and> ifIndexOf markerChunks = Some 0
   \<and> markerChunks ! 0 = Op OP_IF
   \<and> extractOrdinalContent (rt_decompile sampleRuntime) asciiText (sampleFromHex (''63'' @ helloWitness))
       = Inr None"
proof -
  let ?D = "rt_decompile sampleRuntime"
  have d: "?D (sampleFromHex signatureWitness) = Inr (Some [Push [0xde, 0xad, 0xbe, 0xef]])"
    by code_simp
  have n: "ifIndexOf [Push [0xde, 0xad, 0xbe, 0xef]] = None"
    by code_simp
  have np: "\<forall>i. Suc i < length [Push [0xde, 0xad, 0xbe, 0xef]] \<longrightarrow>
              \<not> ([Push [0xde, 0xad, 0xbe, 0xef]] ! i = Op OP_FALSE
                 \<and> [Push [0xde, 0xad, 0xbe, 0xef]] ! Suc i = Op OP_IF)"
    by simp
  note T = extractOrdinalContent_marker[of ?D "sampleFromHex signatureWitness"
             "[Push [0xde, 0xad, 0xbe, 0xef]]" asciiText, OF d]
  from T[THEN conjunct2, THEN conjunct2, THEN conjunct2, THEN mp, OF np]
  have a: "extractOrdinalContent ?D asciiText (sampleFromHex signatureWitness) = Inr None" .
  have d2: "?D (sampleFromHex (''63'' @ helloWitness)) = Inr (Some markerChunks)" by code_simp
  have z: "ifIndexOf markerChunks = Some 0" by code_simp
  note U = extractOrdinalContent_marker[of ?D "sampleFromHex (''63'' @ helloWitness)"
             markerChunks asciiText, OF d2]
  from U z have b: "markerChunks ! 0 = Op OP_IF" by blast
  from U z have c: "extractOrdinalContent ?D asciiText (sampleFromHex (''63'' @ helloWitness)) = Inr None"
    by blast
  from d n a d2 z b c show ?thesis by blast
qed

text \<open>
  The claim C2 as first worded fails: in \<open>markerChunks\<close> the first index whose token is
  \<^verbatim>\<open>OP_IF\<close> with \<^verbatim>\<open>OP_FALSE\<close> before it is 2, and a complete envelope follows it, but the
  parser stops at the \<^verbatim>\<open>OP_IF\<close> at index 0 and returns \<^verbatim>\<open>null\<close>.
\<close>

theorem extractOrdinalContent_marker_counterexample:
  "ifIndexOf markerChunks \<noteq> firstMarkerPair markerChunks
   \<and> firstMarkerPair markerChunks = Some 2
   \<and> rt_decompile sampleRuntime (sampleFromHex (''63'' @ helloWitness)) = Inr (Some markerChunks)
   \<and> extractOrdinalContent (rt_decompile sampleRuntime) asciiText (sampleFromHex (''63'' @ helloWitness)) = Inr None
   \<and> extractOrdinalContent (rt_decompile sampleRuntime) asciiText (sampleFromHex helloWitness)
       = Inr (Some \<lparr> contentType = ''text/plain'', content = [0x68, 0x65, 0x6c, 0x6c, 0x6f] \<rparr>)"
  by code_simp


text \<open>
  Claim C3. Let \<open>k\<close> be the index of the tag push. The content type is read right after
  it, in two encodings. Tagged: if the token after the tag is the field-tag opcode (\<^verbatim>\<open>OP_1\<close>,
  or the number 1) and a data push follows it inside the window, that push is read as the
  content type. Bare: if the token after the tag is itself a data push, it is read as the
  content type. The tagged form has priority: with a field tag after the tag only the
  token behind the field tag is looked at. Both encodings are accepted by the parser: with
  the marker in place, a non-empty content type and the separator right after it, the
  result is an inscription with that content type. A returned content type is never
  empty and always comes from one of the two encodings, and if neither is present the
  result is \<^verbatim>\<open>null\<close>.
\<close>

theorem extractOrdinalContent_contentType:
  assumes "decompile scriptBuffer = Inr (Some toks)"
    and "ifIndexOf toks = Some i" and "endifIndexOf toks i = Some e"
    and "ordPushIndexOf toUtf8 toks i e = Some k"
  shows "(\<forall>r. extractOrdinalContent decompile toUtf8 scriptBuffer = Inr (Some r) \<longrightarrow>
            contentType r \<noteq> [] \<and>
            (if toks ! (k + 1) = Op OP_1 \<or> toks ! (k + 1) = Op 1
             then k + 2 < e \<and> (\<exists>b. toks ! (k + 2) = Push b \<and> contentType r = toUtf8 b)
             else k + 1 < e \<and> (\<exists>b. toks ! (k + 1) = Push b \<and> contentType r = toUtf8 b)))
       \<and> (\<not> ((toks ! (k + 1) = Op OP_1 \<or> toks ! (k + 1) = Op 1) \<and> k + 2 < e \<and> isBuffer (toks ! (k + 2)))
          \<and> \<not> (k + 1 < e \<and> isBuffer (toks ! (k + 1)))
          \<longrightarrow> extractOrdinalContent decompile toUtf8 scriptBuffer = Inr None)
       \<and> (\<forall>b. (toks ! (k + 1) = Op OP_1 \<or> toks ! (k + 1) = Op 1) \<and> k + 2 < e
                \<and> toks ! (k + 2) = Push b \<longrightarrow>
              readContentType toUtf8 toks k e = Some (k + 2, toUtf8 b))
       \<and> (\<forall>b. k + 1 < e \<and> toks ! (k + 1) = Push b \<longrightarrow>
              readContentType toUtf8 toks k e = Some (k + 1, toUtf8 b))
       \<and> (\<forall>b. 0 < i \<and> toks ! (i - 1) = Op OP_FALSE
                \<and> (toks ! (k + 1) = Op OP_1 \<or> toks ! (k + 1) = Op 1) \<and> k + 2 < e
                \<and> toks ! (k + 2) = Push b \<and> toUtf8 b \<noteq> []
                \<and> k + 3 < e \<and> isSeparator (toks ! (k + 3)) \<longrightarrow>
              (\<exists>r. extractOrdinalContent decompile toUtf8 scriptBuffer = Inr (Some r)
                  \<and> contentType r = toUtf8 b))
       \<and> (\<forall>b. 0 < i \<and> toks ! (i - 1) = Op OP_FALSE
                \<and> k + 1 < e \<and> toks ! (k + 1) = Push b \<and> toUtf8 b \<noteq> []
                \<and> k + 2 < e \<and> isSeparator (toks ! (k + 2)) \<longrightarrow>
              (\<exists>r. extractOrdinalContent decompile toUtf8 scriptBuffer = Inr (Some r)
                  \<and> contentType r = toUtf8 b))"
proof -
  note E = endifIndexOf_SomeD[OF assms(3)]
  note K = ordPushIndexOf_SomeD[OF assms(4)]
  have le: "e \<le> length toks" using E by simp
  have k1: "k + 1 < length toks" using E K by simp
  have tag: "isFieldTag1 (at toks (k + 1)) \<longleftrightarrow> (toks ! (k + 1) = Op OP_1 \<or> toks ! (k + 1) = Op 1)"
    using k1 by (simp add: isFieldTag1_def at_def)
  have x: "extractOrdinalContent decompile toUtf8 scriptBuffer = Inr (extractFromChunks toUtf8 toks)"
    using assms(1) by (rule extractOrdinalContent_chunks)
  have p1: "contentType r \<noteq> [] \<and>
            (if toks ! (k + 1) = Op OP_1 \<or> toks ! (k + 1) = Op 1
             then k + 2 < e \<and> (\<exists>b. toks ! (k + 2) = Push b \<and> contentType r = toUtf8 b)
             else k + 1 < e \<and> (\<exists>b. toks ! (k + 1) = Push b \<and> contentType r = toUtf8 b))"
    if "extractOrdinalContent decompile toUtf8 scriptBuffer = Inr (Some r)" for r
  proof -
    from that x have r: "extractFromChunks toUtf8 toks = Some r" by simp
    then obtain ct s e' where h: "envelopeHeader toUtf8 toks = Some (ct, s, e')"
      and ct: "contentType r = ct"
      by (auto simp: extractFromChunks_def split: option.splits)
    from envelopeHeader_SomeD[OF h] assms obtain c where
      c: "readContentType toUtf8 toks k e = Some (c, ct)" and ne: "ct \<noteq> []" by auto
    from readContentType_SomeD[OF c le] tag k1
    have "if toks ! (k + 1) = Op OP_1 \<or> toks ! (k + 1) = Op 1
             then k + 2 < e \<and> (\<exists>b. toks ! (k + 2) = Push b \<and> ct = toUtf8 b)
             else k + 1 < e \<and> (\<exists>b. toks ! (k + 1) = Push b \<and> ct = toUtf8 b)"
      by (auto simp: at_def isFieldTag1_def)
    with ne ct show ?thesis by (auto split: if_splits)
  qed
  have p2: "extractOrdinalContent decompile toUtf8 scriptBuffer = Inr None"
    if n: "\<not> ((toks ! (k + 1) = Op OP_1 \<or> toks ! (k + 1) = Op 1) \<and> k + 2 < e \<and> isBuffer (toks ! (k + 2)))
          \<and> \<not> (k + 1 < e \<and> isBuffer (toks ! (k + 1)))"
  proof -
    have "readContentType toUtf8 toks k e = None"
      using n tag le
      by (auto simp: readContentType_def at_def split: option.splits chunk.splits)
    then have "envelopeHeader toUtf8 toks = None"
      using assms by (simp add: envelopeHeader_def)
    then show ?thesis using x by (simp add: extractFromChunks_def)
  qed
  have p3: "readContentType toUtf8 toks k e = Some (k + 2, toUtf8 b)"
    if "(toks ! (k + 1) = Op OP_1 \<or> toks ! (k + 1) = Op 1) \<and> k + 2 < e \<and> toks ! (k + 2) = Push b"
    for b
    using that le readContentType_tagged[of toks k e b toUtf8] by blast
  have p4: "readContentType toUtf8 toks k e = Some (k + 1, toUtf8 b)"
    if "k + 1 < e \<and> toks ! (k + 1) = Push b" for b
    using that le readContentType_bare[of k e toks b toUtf8] by blast
  have acc: "\<exists>r. extractOrdinalContent decompile toUtf8 scriptBuffer = Inr (Some r)
                  \<and> contentType r = ct"
    if g: "0 < i" "toks ! (i - 1) = Op OP_FALSE"
      and c: "readContentType toUtf8 toks k e = Some (c, ct)" and ne: "ct \<noteq> []"
      and s: "c + 1 < e" "isSeparator (toks ! (c + 1))" for c ct
  proof -
    from envelopeHeader_SomeI[OF assms(2) g assms(3) assms(4) c ne s]
    have "envelopeHeader toUtf8 toks = Some (ct, c + 1, e)" .
    from extractFromChunks_Some[OF this] x show ?thesis by simp
  qed
  have p5: "\<exists>r. extractOrdinalContent decompile toUtf8 scriptBuffer = Inr (Some r)
                  \<and> contentType r = toUtf8 b"
    if h: "0 < i \<and> toks ! (i - 1) = Op OP_FALSE
                \<and> (toks ! (k + 1) = Op OP_1 \<or> toks ! (k + 1) = Op 1) \<and> k + 2 < e
                \<and> toks ! (k + 2) = Push b \<and> toUtf8 b \<noteq> []
                \<and> k + 3 < e \<and> isSeparator (toks ! (k + 3))" for b
  proof -
    from h p3[of b] have c: "readContentType toUtf8 toks k e = Some (k + 2, toUtf8 b)" by blast
    have s: "k + 2 + 1 < e" "isSeparator (toks ! (k + 2 + 1))"
      using h by (simp_all add: numeral_3_eq_3 add.commute)
    from h have g: "0 < i" "toks ! (i - 1) = Op OP_FALSE" and ne: "toUtf8 b \<noteq> []" by simp_all
    from acc[OF g c ne s] show ?thesis .
  qed
  have p6: "\<exists>r. extractOrdinalContent decompile toUtf8 scriptBuffer = Inr (Some r)
                  \<and> contentType r = toUtf8 b"
    if h: "0 < i \<and> toks ! (i - 1) = Op OP_FALSE
                \<and> k + 1 < e \<and> toks ! (k + 1) = Push b \<and> toUtf8 b \<noteq> []
                \<and> k + 2 < e \<and> isSeparator (toks ! (k + 2))" for b
  proof -
    from h p4[of b] have c: "readContentType toUtf8 toks k e = Some (k + 1, toUtf8 b)" by blast
    have s: "k + 1 + 1 < e" "isSeparator (toks ! (k + 1 + 1))"
      using h by (simp_all add: numeral_2_eq_2)
    from h have g: "0 < i" "toks ! (i - 1) = Op OP_FALSE" and ne: "toUtf8 b \<noteq> []" by simp_all
    from acc[OF g c ne s] show ?thesis .
  qed
  from p1 p2 p3 p4 p5 p6 show ?thesis by blast
qed

theorem extractOrdinalContent_contentType_witness:
  "extractOrdinalContent (rt_decompile sampleRuntime) asciiText (sampleFromHex helloWitness)
       = Inr (Some \<lparr> contentType = ''text/plain'', content = [0x68, 0x65, 0x6c, 0x6c, 0x6f] \<rparr>)
   \<and> helloChunks ! (2 + 1) = Op OP_1
   \<and> (\<exists>b. helloChunks ! (2 + 2) = Push b \<and> ''text/plain'' = asciiText b)
   \<and> bareChunks ! (2 + 1) \<noteq> Op OP_1 \<and> bareChunks ! (2 + 1) \<noteq> Op 1
   \<and> (\<exists>b. bareChunks ! (2 + 1) = Push b \<and> ''text/plain'' = asciiText b)
   \<and> extractOrdinalContent (rt_decompile sampleRuntime) asciiText (sampleFromHex tagOnlyWitness)
       = Inr None
   \<and> readContentType asciiText helloChunks 2 7 = Some (2 + 2, asciiText textPlainBytes)
   \<and> readContentType asciiText bareChunks 2 6 = Some (2 + 1, asciiText textPlainBytes)
   \<and> asciiText textPlainBytes = ''text/plain''
   \<and> (\<exists>r. extractOrdinalContent (rt_decompile sampleRuntime) asciiText (sampleFromHex helloWitness)
              = Inr (Some r) \<and> contentType r = asciiText textPlainBytes)
   \<and> (\<exists>r. extractOrdinalContent (rt_decompile sampleRuntime) asciiText (sampleFromHex bareWitness)
              = Inr (Some r) \<and> contentType r = asciiText textPlainBytes)"
proof -
  let ?D = "rt_decompile sampleRuntime"
  let ?r = "\<lparr> contentType = ''text/plain'', content = [0x68, 0x65, 0x6c, 0x6c, 0x6f] \<rparr>"
  have tp: "asciiText textPlainBytes = ''text/plain''" by code_simp
  have d1: "?D (sampleFromHex helloWitness) = Inr (Some helloChunks)" by code_simp
  have i1: "ifIndexOf helloChunks = Some 1" by code_simp
  have e1: "endifIndexOf helloChunks 1 = Some 7" by code_simp
  have k1: "ordPushIndexOf asciiText helloChunks 1 7 = Some 2" by code_simp
  have x1: "extractOrdinalContent ?D asciiText (sampleFromHex helloWitness) = Inr (Some ?r)"
    by code_simp
  have t1: "helloChunks ! (2 + 1) = Op OP_1" by code_simp
  note T1 = extractOrdinalContent_contentType[of ?D "sampleFromHex helloWitness" helloChunks 1 7
              asciiText 2, OF d1 i1 e1 k1]
  from T1[THEN conjunct1] x1 t1
  have a: "\<exists>b. helloChunks ! (2 + 2) = Push b \<and> ''text/plain'' = asciiText b" by force
  have h3: "(helloChunks ! (2 + 1) = Op OP_1 \<or> helloChunks ! (2 + 1) = Op 1) \<and> 2 + 2 < (7::nat)
             \<and> helloChunks ! (2 + 2) = Push textPlainBytes" by code_simp
  from T1[THEN conjunct2, THEN conjunct2, THEN conjunct1, THEN spec, THEN mp, OF h3]
  have r1: "readContentType asciiText helloChunks 2 7 = Some (2 + 2, asciiText textPlainBytes)" .
  have h5: "0 < (1::nat) \<and> helloChunks ! (1 - 1) = Op OP_FALSE
             \<and> (helloChunks ! (2 + 1) = Op OP_1 \<or> helloChunks ! (2 + 1) = Op 1) \<and> 2 + 2 < (7::nat)
             \<and> helloChunks ! (2 + 2) = Push textPlainBytes \<and> asciiText textPlainBytes \<noteq> []
             \<and> 2 + 3 < (7::nat) \<and> isSeparator (helloChunks ! (2 + 3))" by code_simp
  from T1[THEN conjunct2, THEN conjunct2, THEN conjunct2, THEN conjunct2, THEN conjunct1,
          THEN spec, THEN mp, OF h5]
  have acc1: "\<exists>r. extractOrdinalContent ?D asciiText (sampleFromHex helloWitness) = Inr (Some r)
                 \<and> contentType r = asciiText textPlainBytes" .
  have d2: "?D (sampleFromHex bareWitness) = Inr (Some bareChunks)" by code_simp
  have i2: "ifIndexOf bareChunks = Some 1" by code_simp
  have e2: "endifIndexOf bareChunks 1 = Some 6" by code_simp
  have k2: "ordPushIndexOf asciiText bareChunks 1 6 = Some 2" by code_simp
  have x2: "extractOrdinalContent ?D asciiText (sampleFromHex bareWitness) = Inr (Some ?r)"
    by code_simp
  have t2: "bareChunks ! (2 + 1) \<noteq> Op OP_1 \<and> bareChunks ! (2 + 1) \<noteq> Op 1" by code_simp
  note T2 = extractOrdinalContent_contentType[of ?D "sampleFromHex bareWitness" bareChunks 1 6
              asciiText 2, OF d2 i2 e2 k2]
  from T2[THEN conjunct1] x2 t2
  have b: "\<exists>b. bareChunks ! (2 + 1) = Push b \<and> ''text/plain'' = asciiText b" by force
  have h4: "2 + 1 < (6::nat) \<and> bareChunks ! (2 + 1) = Push textPlainBytes" by code_simp
  from T2[THEN conjunct2, THEN conjunct2, THEN conjunct2, THEN conjunct1, THEN spec, THEN mp, OF h4]
  have r2: "readContentType asciiText bareChunks 2 6 = Some (2 + 1, asciiText textPlainBytes)" .
  have h6: "0 < (1::nat) \<and> bareChunks ! (1 - 1) = Op OP_FALSE
             \<and> 2 + 1 < (6::nat) \<and> bareChunks ! (2 + 1) = Push textPlainBytes
             \<and> asciiText textPlainBytes \<noteq> []
             \<and> 2 + 2 < (6::nat) \<and> isSeparator (bareChunks ! (2 + 2))" by code_simp
  from T2[THEN conjunct2, THEN conjunct2, THEN conjunct2, THEN conjunct2, THEN conjunct2,
          THEN spec, THEN mp, OF h6]
  have acc2: "\<exists>r. extractOrdinalContent ?D asciiText (sampleFromHex bareWitness) = Inr (Some r)
                 \<and> contentType r = asciiText textPlainBytes" .
  have d3: "?D (sampleFromHex tagOnlyWitness) = Inr (Some tagOnlyChunks)" by code_simp
  have i3: "ifIndexOf tagOnlyChunks = Some 1" by code_simp
  have e3: "endifIndexOf tagOnlyChunks 1 = Some 3" by code_simp
  have k3: "ordPushIndexOf asciiText tagOnlyChunks 1 3 = Some 2" by code_simp
  have t3: "\<not> (2 + 2 < (3::nat)) \<and> \<not> (2 + 1 < (3::nat))" by simp
  note T3 = extractOrdinalContent_contentType[of ?D "sampleFromHex tagOnlyWitness" tagOnlyChunks 1 3
              asciiText 2, OF d3 i3 e3 k3]
  from T3[THEN conjunct2, THEN conjunct1] t3
  have c: "extractOrdinalContent ?D asciiText (sampleFromHex tagOnlyWitness) = Inr None" by blast
  from x1 t1 a t2 b c r1 r2 tp acc1 acc2 show ?thesis by blast
qed

text \<open>
  Claim C4. On every buffer the parser returns; it never throws. A decompiler that throws,
  a decompiler that returns \<^verbatim>\<open>null\<close>, an empty token array and a token array without a
  complete envelope header all give the result \<^verbatim>\<open>null\<close>.
\<close>

theorem extractOrdinalContent_total:
  "(\<exists>r. extractOrdinalContent decompile toUtf8 scriptBuffer = Inr r)
   \<and> (\<forall>ex. decompile scriptBuffer = Inl ex \<longrightarrow>
         extractOrdinalContent decompile toUtf8 scriptBuffer = Inr None)
   \<and> (decompile scriptBuffer = Inr None \<longrightarrow>
         extractOrdinalContent decompile toUtf8 scriptBuffer = Inr None)
   \<and> (\<forall>toks. decompile scriptBuffer = Inr (Some toks) \<and> envelopeHeader toUtf8 toks = None \<longrightarrow>
         extractOrdinalContent decompile toUtf8 scriptBuffer = Inr None)
   \<and> (decompile scriptBuffer = Inr (Some []) \<longrightarrow>
         extractOrdinalContent decompile toUtf8 scriptBuffer = Inr None)"
  by (auto simp: extractOrdinalContent_def extractOrdinalContent_try_def extractFromChunks_def
                 envelopeHeader_def ifIndexOf_def findIndex_def
           split: sum.splits option.splits)

theorem extractOrdinalContent_total_witness:
  "extractOrdinalContent failingDecompile asciiText [0x00, 0x63] = Inr None
   \<and> rt_decompile sampleRuntime (sampleFromHex ''05aa'') = Inr None
   \<and> extractOrdinalContent (rt_decompile sampleRuntime) asciiText (sampleFromHex ''05aa'') = Inr None
   \<and> rt_decompile sampleRuntime (sampleFromHex []) = Inr (Some [])
   \<and> extractOrdinalContent (rt_decompile sampleRuntime) asciiText (sampleFromHex []) = Inr None
   \<and> envelopeHeader asciiText tagOnlyChunks = None
   \<and> extractOrdinalContent (rt_decompile sampleRuntime) asciiText (sampleFromHex tagOnlyWitness)
       = Inr None"
proof -
  let ?D = "rt_decompile sampleRuntime"
  have f: "failingDecompile [0x00, 0x63] = Inl (JsError ''decompile failed'')"
    by (simp add: failingDecompile_def)
  from extractOrdinalContent_total[of failingDecompile asciiText "[0x00, 0x63]"] f
  have a: "extractOrdinalContent failingDecompile asciiText [0x00, 0x63] = Inr None" by blast
  have n: "?D (sampleFromHex ''05aa'') = Inr None" by code_simp
  from extractOrdinalContent_total[of ?D asciiText "sampleFromHex ''05aa''"] n
  have b: "extractOrdinalContent ?D asciiText (sampleFromHex ''05aa'') = Inr None" by blast
  have m: "?D (sampleFromHex []) = Inr (Some [])" by code_simp
  from extractOrdinalContent_total[of ?D asciiText "sampleFromHex []"] m
  have c: "extractOrdinalContent ?D asciiText (sampleFromHex []) = Inr None" by blast
  have d: "?D (sampleFromHex tagOnlyWitness) = Inr (Some tagOnlyChunks)" by code_simp
  have h: "envelopeHeader asciiText tagOnlyChunks = None" by code_simp
  from extractOrdinalContent_total[of ?D asciiText "sampleFromHex tagOnlyWitness"] d h
  have e: "extractOrdinalContent ?D asciiText (sampleFromHex tagOnlyWitness) = Inr None" by blast
  from a n b m c h e show ?thesis by blast
qed

section \<open>The scanner\<close>

lemma scanWitness_parse:
  "scanWitness R input i j (w # ws) acc =
     scanWitness R input i (Suc j) ws
       (acc @ (case parseWitness R w of Some x \<Rightarrow> [envelopeAt input i j x] | None \<Rightarrow> []))"
  by (simp add: parseWitness_def envelopeAt_def split: sum.splits option.splits)

lemma envelopesOfItems_Nil: "envelopesOfItems R input i j [] = []"
  by (simp add: envelopesOfItems_def)

lemma envelopesOfItems_Cons:
  "envelopesOfItems R input i j (w # ws) =
     (case parseWitness R w of Some x \<Rightarrow> [envelopeAt input i j x] | None \<Rightarrow> [])
       @ envelopesOfItems R input i (Suc j) ws"
  by (simp add: envelopesOfItems_def)

lemma scanWitness_eq:
  "scanWitness R input i j ws acc = acc @ envelopesOfItems R input i j ws"
proof (induction ws arbitrary: j acc)
  case Nil
  show ?case by (simp add: envelopesOfItems_Nil)
next
  case (Cons w ws)
  show ?case
    unfolding scanWitness_parse envelopesOfItems_Cons Cons.IH by simp
qed

lemma envelopesInOrder_Nil: "envelopesInOrder R i [] = []"
  by (simp add: envelopesInOrder_def)

lemma envelopesInOrder_Cons:
  "envelopesInOrder R i (input # rest) =
     envelopesOfItems R input i 0 (witnessItems input) @ envelopesInOrder R (Suc i) rest"
  by (simp add: envelopesInOrder_def)

lemma scanInputs_eq:
  "scanInputs R i inputs acc = acc @ envelopesInOrder R i inputs"
proof (induction inputs arbitrary: i acc)
  case Nil
  show ?case by (simp add: envelopesInOrder_Nil)
next
  case (Cons input rest)
  have "(case vin_witness input of
          Some witness \<Rightarrow> (if length witness > 0 then scanWitness R input i 0 witness acc else acc)
        | None \<Rightarrow> acc) = acc @ envelopesOfItems R input i 0 (witnessItems input)"
    by (auto simp: witnessItems_def scanWitness_eq envelopesOfItems_Nil split: option.splits)
  then show ?case
    by (simp add: Cons.IH envelopesInOrder_Cons)
qed

lemma set_envelopesOfItems:
  "x \<in> set (envelopesOfItems R input i j0 ws) \<longleftrightarrow>
     (\<exists>j c. j < length ws \<and> parseWitness R (ws ! j) = Some c \<and> x = envelopeAt input i (j0 + j) c)"
proof (induction ws arbitrary: j0)
  case Nil
  show ?case by (simp add: envelopesOfItems_Nil)
next
  case (Cons w ws)
  have "(\<exists>j c. j < length (w # ws) \<and> parseWitness R ((w # ws) ! j) = Some c \<and> x = envelopeAt input i (j0 + j) c)
        \<longleftrightarrow> (\<exists>c. parseWitness R w = Some c \<and> x = envelopeAt input i j0 c)
           \<or> (\<exists>j c. j < length ws \<and> parseWitness R (ws ! j) = Some c \<and> x = envelopeAt input i (Suc j0 + j) c)"
    (is "?L \<longleftrightarrow> ?A \<or> ?B")
  proof
    assume ?L
    then obtain j c where j: "j < length (w # ws)" "parseWitness R ((w # ws) ! j) = Some c"
      "x = envelopeAt input i (j0 + j) c" by blast
    show "?A \<or> ?B"
    proof (cases j)
      case 0
      with j show ?thesis by auto
    next
      case (Suc m)
      with j have "m < length ws \<and> parseWitness R (ws ! m) = Some c \<and> x = envelopeAt input i (Suc j0 + m) c"
        by simp
      then show ?thesis by blast
    qed
  next
    assume "?A \<or> ?B"
    then show ?L
    proof
      assume ?A
      then obtain c where "parseWitness R w = Some c" "x = envelopeAt input i j0 c" by blast
      then have "0 < length (w # ws) \<and> parseWitness R ((w # ws) ! 0) = Some c \<and> x = envelopeAt input i (j0 + 0) c"
        by simp
      then show ?L by blast
    next
      assume ?B
      then obtain j c where "j < length ws" "parseWitness R (ws ! j) = Some c"
        "x = envelopeAt input i (Suc j0 + j) c" by blast
      then have "Suc j < length (w # ws) \<and> parseWitness R ((w # ws) ! Suc j) = Some c
                 \<and> x = envelopeAt input i (j0 + Suc j) c" by simp
      then show ?L by blast
    qed
  qed
  moreover have "x \<in> set (envelopesOfItems R input i j0 (w # ws)) \<longleftrightarrow> ?A \<or> ?B"
  proof (cases "parseWitness R w")
    case None
    then show ?thesis by (simp add: envelopesOfItems_Cons Cons.IH)
  next
    case (Some c)
    then show ?thesis by (simp add: envelopesOfItems_Cons Cons.IH)
  qed
  ultimately show ?case by simp
qed

lemma set_envelopesInOrder:
  "x \<in> set (envelopesInOrder R i0 inputs) \<longleftrightarrow>
     (\<exists>i j c. i < length inputs \<and> j < length (witnessItems (inputs ! i))
        \<and> parseWitness R (witnessItems (inputs ! i) ! j) = Some c
        \<and> x = envelopeAt (inputs ! i) (i0 + i) j c)"
proof (induction inputs arbitrary: i0)
  case Nil
  show ?case by (simp add: envelopesInOrder_Nil)
next
  case (Cons input rest)
  let ?P = "\<lambda>ins i k j c. i < length ins \<and> j < length (witnessItems (ins ! i))
        \<and> parseWitness R (witnessItems (ins ! i) ! j) = Some c
        \<and> x = envelopeAt (ins ! i) k j c"
  have "(\<exists>i j c. ?P (input # rest) i (i0 + i) j c)
        \<longleftrightarrow> (\<exists>j c. j < length (witnessItems input) \<and> parseWitness R (witnessItems input ! j) = Some c
                    \<and> x = envelopeAt input i0 j c)
           \<or> (\<exists>i j c. ?P rest i (Suc i0 + i) j c)"
    (is "?L \<longleftrightarrow> ?A \<or> ?B")
  proof
    assume ?L
    then obtain i j c where p: "?P (input # rest) i (i0 + i) j c" by blast
    show "?A \<or> ?B"
    proof (cases i)
      case 0
      with p show ?thesis by auto
    next
      case (Suc m)
      with p have "?P rest m (Suc i0 + m) j c" by simp
      then show ?thesis by blast
    qed
  next
    assume "?A \<or> ?B"
    then show ?L
    proof
      assume ?A
      then obtain j c where "j < length (witnessItems input)"
        "parseWitness R (witnessItems input ! j) = Some c" "x = envelopeAt input i0 j c" by blast
      then have "?P (input # rest) 0 (i0 + 0) j c" by simp
      then show ?L by blast
    next
      assume ?B
      then obtain i j c where "?P rest i (Suc i0 + i) j c" by blast
      then have "?P (input # rest) (Suc i) (i0 + Suc i) j c" by simp
      then show ?L by blast
    qed
  qed
  then show ?case
    by (simp add: envelopesInOrder_Cons Cons.IH set_envelopesOfItems)
qed

lemma sourceInfo_envelopeAt [simp]:
  "inputIndex (sourceInfo (envelopeAt input i j c)) = i"
  "witnessIndex (sourceInfo (envelopeAt input i j c)) = j"
  by (simp_all add: envelopeAt_def)

lemma sorted_envelopesOfItems:
  "sorted_wrt locatedBefore (map sourceInfo (envelopesOfItems R input i j0 ws))"
proof (induction ws arbitrary: j0)
  case Nil
  show ?case by (simp add: envelopesOfItems_Nil)
next
  case (Cons w ws)
  have later: "\<forall>y \<in> set (envelopesOfItems R input i (Suc j0) ws).
                 inputIndex (sourceInfo y) = i \<and> j0 < witnessIndex (sourceInfo y)"
    by (auto simp: set_envelopesOfItems)
  show ?case
  proof (cases "parseWitness R w")
    case None
    then show ?thesis using Cons.IH[of "Suc j0"] by (simp add: envelopesOfItems_Cons)
  next
    case (Some c)
    have "\<forall>y \<in> set (envelopesOfItems R input i (Suc j0) ws).
            locatedBefore (sourceInfo (envelopeAt input i j0 c)) (sourceInfo y)"
      using later by (simp add: locatedBefore_def)
    then show ?thesis using Some Cons.IH[of "Suc j0"] by (simp add: envelopesOfItems_Cons)
  qed
qed

lemma sorted_envelopesInOrder:
  "sorted_wrt locatedBefore (map sourceInfo (envelopesInOrder R i0 inputs))"
proof (induction inputs arbitrary: i0)
  case Nil
  show ?case by (simp add: envelopesInOrder_Nil)
next
  case (Cons input rest)
  have here: "\<forall>y \<in> set (envelopesOfItems R input i0 0 (witnessItems input)). inputIndex (sourceInfo y) = i0"
    by (auto simp: set_envelopesOfItems)
  have later: "\<forall>y \<in> set (envelopesInOrder R (Suc i0) rest). i0 < inputIndex (sourceInfo y)"
    by (auto simp: set_envelopesInOrder)
  have cross: "\<forall>a \<in> set (envelopesOfItems R input i0 0 (witnessItems input)).
                 \<forall>b \<in> set (envelopesInOrder R (Suc i0) rest).
                   locatedBefore (sourceInfo a) (sourceInfo b)"
    using here later by (simp add: locatedBefore_def)
  show ?case
    using Cons.IH[of "Suc i0"] cross sorted_envelopesOfItems[of R input i0 0 "witnessItems input"]
    by (simp add: envelopesInOrder_Cons sorted_wrt_append)
qed

lemma length_envelopesOfItems:
  "length (envelopesOfItems R input i j0 ws) = length (filter (\<lambda>w. parseWitness R w \<noteq> None) ws)"
  by (induction ws arbitrary: j0) (auto simp: envelopesOfItems_Nil envelopesOfItems_Cons)

lemma length_envelopesInOrder:
  "length (envelopesInOrder R i0 inputs)
     = sum_list (map (\<lambda>input. length (filter (\<lambda>w. parseWitness R w \<noteq> None) (witnessItems input))) inputs)"
  by (induction inputs arbitrary: i0)
     (auto simp: envelopesInOrder_Nil envelopesInOrder_Cons length_envelopesOfItems)


text \<open>
  Claim C5. The scan of a transaction is the list, input by input and within an input
  witness item by witness item, of the envelopes the parser finds, each tagged with its
  input index and witness index. So the locations in the result strictly increase in the
  order input-major, witness-minor; an envelope is in the result exactly when its witness
  item parses; the result has one entry per parsing item (nothing is merged or dropped);
  and a transaction with no parsing item gives the empty list. The scan has no failing
  path: an exception raised for one item is caught and the item skipped.
\<close>

theorem extractAllOrdinals_order:
  "extractAllOrdinals R tx = envelopesInOrder R 0 (tx_vin tx)
   \<and> sorted_wrt locatedBefore (map sourceInfo (extractAllOrdinals R tx))
   \<and> (\<forall>x. x \<in> set (extractAllOrdinals R tx) \<longleftrightarrow>
         (\<exists>i j c. i < length (tx_vin tx) \<and> j < length (witnessItems (tx_vin tx ! i))
            \<and> parseWitness R (witnessItems (tx_vin tx ! i) ! j) = Some c
            \<and> x = envelopeAt (tx_vin tx ! i) i j c))
   \<and> length (extractAllOrdinals R tx)
       = sum_list (map (\<lambda>input. length (filter (\<lambda>w. parseWitness R w \<noteq> None) (witnessItems input)))
                       (tx_vin tx))
   \<and> ((\<forall>input \<in> set (tx_vin tx). \<forall>w \<in> set (witnessItems input). parseWitness R w = None)
        \<longrightarrow> extractAllOrdinals R tx = [])"
proof -
  have eq: "extractAllOrdinals R tx = envelopesInOrder R 0 (tx_vin tx)"
    by (simp add: extractAllOrdinals_def scanInputs_eq)
  have s: "sorted_wrt locatedBefore (map sourceInfo (extractAllOrdinals R tx))"
    unfolding eq by (rule sorted_envelopesInOrder)
  have m: "\<forall>x. x \<in> set (extractAllOrdinals R tx) \<longleftrightarrow>
         (\<exists>i j c. i < length (tx_vin tx) \<and> j < length (witnessItems (tx_vin tx ! i))
            \<and> parseWitness R (witnessItems (tx_vin tx ! i) ! j) = Some c
            \<and> x = envelopeAt (tx_vin tx ! i) i j c)"
    unfolding eq using set_envelopesInOrder[of _ R 0 "tx_vin tx"] by simp
  have l: "length (extractAllOrdinals R tx)
       = sum_list (map (\<lambda>input. length (filter (\<lambda>w. parseWitness R w \<noteq> None) (witnessItems input)))
                       (tx_vin tx))"
    unfolding eq by (rule length_envelopesInOrder)
  have z: "(\<forall>input \<in> set (tx_vin tx). \<forall>w \<in> set (witnessItems input). parseWitness R w = None)
        \<longrightarrow> extractAllOrdinals R tx = []"
  proof
    assume a: "\<forall>input \<in> set (tx_vin tx). \<forall>w \<in> set (witnessItems input). parseWitness R w = None"
    show "extractAllOrdinals R tx = []"
    proof (rule ccontr)
      assume "extractAllOrdinals R tx \<noteq> []"
      then have "hd (extractAllOrdinals R tx) \<in> set (extractAllOrdinals R tx)" by simp
      with m obtain i j c where "i < length (tx_vin tx)" "j < length (witnessItems (tx_vin tx ! i))"
        "parseWitness R (witnessItems (tx_vin tx ! i) ! j) = Some c" by blast
      moreover from this have "tx_vin tx ! i \<in> set (tx_vin tx)"
        "witnessItems (tx_vin tx ! i) ! j \<in> set (witnessItems (tx_vin tx ! i))" by simp_all
      ultimately show False using a by force
    qed
  qed
  from eq s m l z show ?thesis by blast
qed

theorem extractAllOrdinals_order_witness:
  "map (\<lambda>x. (inputIndex (sourceInfo x), witnessIndex (sourceInfo x), contentType x))
       (extractAllOrdinals sampleRuntime sampleTx)
     = [(0, 0, ''text/plain''), (0, 2, ''text/plain''), (3, 0, ''image/png''), (3, 1, ''text/plain'')]
   \<and> length (extractAllOrdinals sampleRuntime sampleTx) = 4
   \<and> sorted_wrt locatedBefore (map sourceInfo (extractAllOrdinals sampleRuntime sampleTx))
   \<and> extractAllOrdinals sampleRuntime plainTx = []"
proof -
  have a: "map (\<lambda>x. (inputIndex (sourceInfo x), witnessIndex (sourceInfo x), contentType x))
       (extractAllOrdinals sampleRuntime sampleTx)
     = [(0, 0, ''text/plain''), (0, 2, ''text/plain''), (3, 0, ''image/png''), (3, 1, ''text/plain'')]"
    by code_simp
  have n: "\<forall>input \<in> set (tx_vin plainTx). \<forall>w \<in> set (witnessItems input). parseWitness sampleRuntime w = None"
    by code_simp
  have c: "sum_list (map (\<lambda>input. length (filter (\<lambda>w. parseWitness sampleRuntime w \<noteq> None) (witnessItems input)))
                       (tx_vin sampleTx)) = 4"
    by code_simp
  from extractAllOrdinals_order[of sampleRuntime plainTx] n
  have z: "extractAllOrdinals sampleRuntime plainTx = []" by blast
  note T = extractAllOrdinals_order[of sampleRuntime sampleTx]
  from T have "length (extractAllOrdinals sampleRuntime sampleTx)
       = sum_list (map (\<lambda>input. length (filter (\<lambda>w. parseWitness sampleRuntime w \<noteq> None) (witnessItems input)))
                       (tx_vin sampleTx))" by blast
  then have l: "length (extractAllOrdinals sampleRuntime sampleTx) = 4" using c by (rule trans)
  from T have s: "sorted_wrt locatedBefore (map sourceInfo (extractAllOrdinals sampleRuntime sampleTx))"
    by blast
  from a l s z show ?thesis by blast
qed


section \<open>The cache\<close>

lemma SimpleCache_get_ttl [simp]: "ttlMs (snd (SimpleCache_get now c key)) = ttlMs c"
  by (simp add: SimpleCache_get_def split: option.splits)

lemma SimpleCache_get_None_lookup:
  "fst (SimpleCache_get now c key) = None \<Longrightarrow> fmlookup (cache (snd (SimpleCache_get now c key))) key = None"
  by (auto simp: SimpleCache_get_def split: option.splits if_splits)

lemma SimpleCache_get_other:
  "k \<noteq> key \<Longrightarrow> fmlookup (cache (snd (SimpleCache_get now c key))) k = fmlookup (cache c) k"
  by (auto simp: SimpleCache_get_def split: option.splits if_splits)

lemma SimpleCache_get_absent:
  "fmlookup (cache c) key = None \<Longrightarrow> SimpleCache_get now c key = (None, c)"
  by (simp add: SimpleCache_get_def)

lemma SimpleCache_get_fresh:
  "fmlookup (cache c) key = Some entry \<Longrightarrow> now - timestamp entry \<le> ttlMs c \<Longrightarrow>
     SimpleCache_get now c key = (Some (data entry), c)"
  by (simp add: SimpleCache_get_def)

lemma SimpleCache_get_expired:
  "fmlookup (cache c) key = Some entry \<Longrightarrow> now - timestamp entry > ttlMs c \<Longrightarrow>
     SimpleCache_get now c key = (None, c\<lparr> cache := fmdrop key (cache c) \<rparr>)"
  by (simp add: SimpleCache_get_def)


lemma SimpleCache_get_after_miss:
  assumes miss: "fst (SimpleCache_get tLookup c key) = None" and later: "tLookup \<le> t"
  shows "fst (SimpleCache_get t (snd (SimpleCache_get tLookup c key)) k) = fst (SimpleCache_get t c k)"
proof (cases "k = key")
  case False
  then show ?thesis
    using SimpleCache_get_other[of k key tLookup c]
    by (simp add: SimpleCache_get_def[of t] split: option.splits)
next
  case True
  show ?thesis
  proof (cases "fmlookup (cache c) key")
    case None
    then show ?thesis using True by (simp add: SimpleCache_get_absent)
  next
    case (Some entry)
    with miss have x: "tLookup - timestamp entry > ttlMs c"
      by (auto simp: SimpleCache_get_def split: if_splits)
    then have y: "t - timestamp entry > ttlMs c" using later by simp
    have "fst (SimpleCache_get t c key) = None" using Some y by (simp add: SimpleCache_get_def)
    moreover have "fst (SimpleCache_get t (snd (SimpleCache_get tLookup c key)) key) = None"
      using SimpleCache_get_None_lookup[OF miss] by (simp add: SimpleCache_get_absent)
    ultimately show ?thesis using True by simp
  qed
qed

lemma fetchAndProcess_fails:
  assumes "fetchFails N txid"
  shows "\<exists>ex. fetchAndProcess R N tStore st txid includeRaw
           = (Inl ex, st\<lparr> txRequests := txRequests st @ [txid] \<rparr>)"
  using assms
  by (auto simp: fetchFails_def fetchAndProcess_def Let_def split: response.splits sum.splits)

lemma fetchAndProcess_requests:
  "txRequests (snd (fetchAndProcess R N tStore st txid includeRaw)) = txRequests st @ [txid]"
  by (auto simp: fetchAndProcess_def Let_def split: response.splits sum.splits)

lemma fetchAndProcess_ok:
  assumes "fetchAndProcess R N tStore st txid includeRaw = (Inr info, st')"
  shows "\<exists>ords hex. fmlookup (cache (transactionCache st')) txid
            = Some \<lparr> data = \<lparr> basicTransaction = info, extractedOrdinals = ords, rawHex = hex \<rparr>,
                      timestamp = tStore \<rparr>
          \<and> ttlMs (transactionCache st') = ttlMs (transactionCache st)
          \<and> txRequests st' = txRequests st @ [txid]"
  using assms
  by (auto simp: fetchAndProcess_def Let_def SimpleCache_set_def split: response.splits sum.splits if_splits)

lemma getTransaction_hit:
  assumes "fmlookup (cache (transactionCache st)) txid = Some entry"
    and "tLookup - timestamp entry \<le> ttlMs (transactionCache st)"
  shows "getTransaction R N tLookup tStore st txid includeRaw = (Inr (basicTransaction (data entry)), st)"
  using assms by (simp add: getTransaction_def SimpleCache_get_fresh)

lemma getTransaction_miss_requests:
  assumes "fst (SimpleCache_get tLookup (transactionCache st) txid) = None"
  shows "txRequests (snd (getTransaction R N tLookup tStore st txid includeRaw)) = txRequests st @ [txid]"
proof -
  obtain c1 where g: "SimpleCache_get tLookup (transactionCache st) txid = (None, c1)"
    using assms by (cases "SimpleCache_get tLookup (transactionCache st) txid") simp
  let ?st1 = "st\<lparr> transactionCache := c1, requestCache := finsert txid (requestCache st) \<rparr>"
  obtain r st2 where f: "fetchAndProcess R N tStore ?st1 txid includeRaw = (r, st2)"
    by (cases "fetchAndProcess R N tStore ?st1 txid includeRaw")
  from fetchAndProcess_requests[of R N tStore ?st1 txid includeRaw] f
  have "txRequests st2 = txRequests st @ [txid]" by simp
  then show ?thesis using g f by (cases r) (simp_all add: getTransaction_def)
qed

lemma getTransaction_miss_ok:
  assumes "fst (SimpleCache_get tLookup (transactionCache st) txid) = None"
    and "getTransaction R N tLookup tStore st txid includeRaw = (Inr info, st')"
  shows "\<exists>ords hex. fmlookup (cache (transactionCache st')) txid
            = Some \<lparr> data = \<lparr> basicTransaction = info, extractedOrdinals = ords, rawHex = hex \<rparr>,
                      timestamp = tStore \<rparr>
          \<and> ttlMs (transactionCache st') = ttlMs (transactionCache st)
          \<and> txRequests st' = txRequests st @ [txid]"
proof -
  obtain c1 where g: "SimpleCache_get tLookup (transactionCache st) txid = (None, c1)"
    using assms(1) by (cases "SimpleCache_get tLookup (transactionCache st) txid") simp
  have t: "ttlMs c1 = ttlMs (transactionCache st)"
    using SimpleCache_get_ttl[of tLookup "transactionCache st" txid] g by simp
  let ?st1 = "st\<lparr> transactionCache := c1, requestCache := finsert txid (requestCache st) \<rparr>"
  obtain r st2 where f: "fetchAndProcess R N tStore ?st1 txid includeRaw = (r, st2)"
    by (cases "fetchAndProcess R N tStore ?st1 txid includeRaw")
  from assms(2) g f have r: "r = Inr info" and s: "st' = st2\<lparr> requestCache := requestCache st2 |-| {|txid|} \<rparr>"
    by (cases r; simp add: getTransaction_def)+
  from fetchAndProcess_ok[OF f[unfolded r]] t s show ?thesis by simp
qed

lemma sampleClient_ttl: "ttlMs (transactionCache sampleClient) = 300 * 1000"
  by (simp add: sampleClient_def OrdinalsClient_new_def SimpleCache_new_def)

lemma cached_run:
  "getTransaction sampleRuntime sampleNetwork 1000 1200 sampleClient ''ab'' False = (Inr cachedInfo, cachedClient)"
proof (rule prod_eqI)
  show "fst (getTransaction sampleRuntime sampleNetwork 1000 1200 sampleClient ''ab'' False) = fst (Inr cachedInfo, cachedClient)"
    by code_simp
  show "snd (getTransaction sampleRuntime sampleNetwork 1000 1200 sampleClient ''ab'' False) = snd (Inr cachedInfo, cachedClient)"
    by (simp add: cachedClient_def)
qed


text \<open>
  Claim C9. For an entry whose age exceeds the TTL and that has not been read yet,
  \<^verbatim>\<open>has\<close> answers true and \<^verbatim>\<open>size\<close> counts it, while \<^verbatim>\<open>get\<close> on the same cache returns
  \<^verbatim>\<open>undefined\<close> and removes it: afterwards \<^verbatim>\<open>has\<close> answers false and \<^verbatim>\<open>size\<close> is one less.
\<close>

theorem SimpleCache_has_size_ignore_expiry:
  assumes "fmlookup (cache c) key = Some entry" and "now - timestamp entry > ttlMs c"
  shows "SimpleCache_has c key
       \<and> SimpleCache_size c = Suc (SimpleCache_size (snd (SimpleCache_get now c key)))
       \<and> fst (SimpleCache_get now c key) = None
       \<and> \<not> SimpleCache_has (snd (SimpleCache_get now c key)) key"
proof -
  from assms(1) have d: "key |\<in>| fmdom (cache c)" by (rule fmdomI)
  have g: "SimpleCache_get now c key = (None, c\<lparr> cache := fmdrop key (cache c) \<rparr>)"
    using assms by (rule SimpleCache_get_expired)
  have dr: "fmdom (fmdrop key (cache c)) = fmdom (cache c) |-| {|key|}" by simp
  have sz: "SimpleCache_size c = Suc (SimpleCache_size (c\<lparr> cache := fmdrop key (cache c) \<rparr>))"
  proof -
    have "cache (c\<lparr> cache := fmdrop key (cache c) \<rparr>) = fmdrop key (cache c)" by simp
    then show ?thesis
      unfolding SimpleCache_size_def using fcard_Suc_fminus1[OF d] dr by metis
  qed
  have h1: "SimpleCache_has c key" using d by (simp add: SimpleCache_has_def)
  have h2: "\<not> SimpleCache_has (c\<lparr> cache := fmdrop key (cache c) \<rparr>) key"
    by (simp add: SimpleCache_has_def)
  from sz h1 h2 show ?thesis unfolding g by simp
qed


theorem SimpleCache_has_size_ignore_expiry_witness:
  "SimpleCache_has (transactionCache cachedClient) ''ab''
   \<and> SimpleCache_size (transactionCache cachedClient) = 1
   \<and> fst (SimpleCache_get 301201 (transactionCache cachedClient) ''ab'') = None
   \<and> SimpleCache_size (snd (SimpleCache_get 301201 (transactionCache cachedClient) ''ab'')) = 0
   \<and> \<not> SimpleCache_has (snd (SimpleCache_get 301201 (transactionCache cachedClient) ''ab'')) ''ab''"
proof -
  have m: "fst (SimpleCache_get 1000 (transactionCache sampleClient) ''ab'') = None" by code_simp
  obtain entry where l: "fmlookup (cache (transactionCache cachedClient)) ''ab'' = Some entry"
    and ts: "timestamp entry = 1200" and tt: "ttlMs (transactionCache cachedClient) = 300 * 1000"
    using getTransaction_miss_ok[OF m cached_run] sampleClient_ttl by force
  have x: "301201 - timestamp entry > ttlMs (transactionCache cachedClient)" using ts tt by simp
  have z: "SimpleCache_size (snd (SimpleCache_get 301201 (transactionCache cachedClient) ''ab'')) = 0"
    by code_simp
  from SimpleCache_has_size_ignore_expiry[OF l x] z show ?thesis by simp
qed


text \<open>
  Claim C6. The client's cache has a TTL of 300 seconds, and \<^verbatim>\<open>getTransaction\<close> keeps it.
  With an entry no older than the TTL the call returns the stored transaction and leaves
  the whole state as it was: no request is sent and nothing is parsed. With an entry older
  than the TTL the lookup is a miss that removes the entry, and the call sends a request.
  After a miss answered successfully, a second call no later than 300 seconds after the
  cache write returns the same transaction from the cache, whatever the source would
  answer now: the two calls sent exactly one request.
\<close>

theorem getTransaction_cache:
  assumes ttl: "ttlMs (transactionCache st) = 300 * 1000"
  shows "ttlMs (transactionCache (OrdinalsClient_new dir fs)) = 300 * 1000
       \<and> ttlMs (transactionCache (snd (getTransaction R N tLookup tStore st txid includeRaw))) = 300 * 1000
       \<and> (\<forall>entry. fmlookup (cache (transactionCache st)) txid = Some entry
                  \<and> tLookup - timestamp entry \<le> 300 * 1000 \<longrightarrow>
             getTransaction R N tLookup tStore st txid includeRaw
               = (Inr (basicTransaction (data entry)), st))
       \<and> (\<forall>entry. fmlookup (cache (transactionCache st)) txid = Some entry
                  \<and> tLookup - timestamp entry > 300 * 1000 \<longrightarrow>
             SimpleCache_get tLookup (transactionCache st) txid
               = (None, (transactionCache st)\<lparr> cache := fmdrop txid (cache (transactionCache st)) \<rparr>)
           \<and> txRequests (snd (getTransaction R N tLookup tStore st txid includeRaw))
               = txRequests st @ [txid])
       \<and> (\<forall>info st1. fst (SimpleCache_get tLookup (transactionCache st) txid) = None
                  \<and> getTransaction R N tLookup tStore st txid includeRaw = (Inr info, st1)
                  \<and> tNext - tStore \<le> 300 * 1000 \<longrightarrow>
             txRequests st1 = txRequests st @ [txid]
           \<and> getTransaction R' N' tNext tStore' st1 txid includeRaw' = (Inr info, st1))"
proof -
  have a: "ttlMs (transactionCache (OrdinalsClient_new dir fs)) = 300 * 1000"
    by (simp add: OrdinalsClient_new_def SimpleCache_new_def)
  have b: "ttlMs (transactionCache (snd (getTransaction R N tLookup tStore st txid includeRaw))) = 300 * 1000"
  proof (cases "fst (SimpleCache_get tLookup (transactionCache st) txid)")
    case None
    obtain r st' where g: "getTransaction R N tLookup tStore st txid includeRaw = (r, st')"
      by (cases "getTransaction R N tLookup tStore st txid includeRaw")
    show ?thesis
    proof (cases r)
      case (Inr info)
      from getTransaction_miss_ok[OF None g[unfolded Inr]] ttl g show ?thesis by auto
    next
      case (Inl ex)
      obtain c1 where c1: "SimpleCache_get tLookup (transactionCache st) txid = (None, c1)"
        using None by (cases "SimpleCache_get tLookup (transactionCache st) txid") simp
      have t: "ttlMs c1 = ttlMs (transactionCache st)"
        using SimpleCache_get_ttl[of tLookup "transactionCache st" txid] c1 by simp
      let ?st1 = "st\<lparr> transactionCache := c1, requestCache := finsert txid (requestCache st) \<rparr>"
      obtain r2 st2 where f: "fetchAndProcess R N tStore ?st1 txid includeRaw = (r2, st2)"
        by (cases "fetchAndProcess R N tStore ?st1 txid includeRaw")
      from g c1 f Inl have "\<exists>ex. r2 = Inl ex" and s: "st' = st2\<lparr> requestCache := requestCache st2 |-| {|txid|} \<rparr>"
        by (cases r2; simp add: getTransaction_def)+
      then obtain ex2 where "r2 = Inl ex2" by blast
      with f have "transactionCache st2 = c1"
        by (auto simp: fetchAndProcess_def Let_def split: response.splits sum.splits)
      with s t ttl g show ?thesis by simp
    qed
  next
    case (Some cached)
    then obtain c1 where c1: "SimpleCache_get tLookup (transactionCache st) txid = (Some cached, c1)"
      by (cases "SimpleCache_get tLookup (transactionCache st) txid") simp
    have t: "ttlMs c1 = ttlMs (transactionCache st)"
      using SimpleCache_get_ttl[of tLookup "transactionCache st" txid] c1 by simp
    with c1 ttl show ?thesis by (simp add: getTransaction_def)
  qed
  have c: "\<forall>entry. fmlookup (cache (transactionCache st)) txid = Some entry
                  \<and> tLookup - timestamp entry \<le> 300 * 1000 \<longrightarrow>
             getTransaction R N tLookup tStore st txid includeRaw
               = (Inr (basicTransaction (data entry)), st)"
    using getTransaction_hit[of st txid _ tLookup R N tStore includeRaw] ttl by auto
  have d: "\<forall>entry. fmlookup (cache (transactionCache st)) txid = Some entry
                  \<and> tLookup - timestamp entry > 300 * 1000 \<longrightarrow>
             SimpleCache_get tLookup (transactionCache st) txid
               = (None, (transactionCache st)\<lparr> cache := fmdrop txid (cache (transactionCache st)) \<rparr>)
           \<and> txRequests (snd (getTransaction R N tLookup tStore st txid includeRaw))
               = txRequests st @ [txid]"
  proof (intro allI impI)
    fix entry
    assume h: "fmlookup (cache (transactionCache st)) txid = Some entry
                  \<and> tLookup - timestamp entry > 300 * 1000"
    then have g: "SimpleCache_get tLookup (transactionCache st) txid
               = (None, (transactionCache st)\<lparr> cache := fmdrop txid (cache (transactionCache st)) \<rparr>)"
      using SimpleCache_get_expired[of "transactionCache st" txid entry tLookup] ttl by simp
    then have "fst (SimpleCache_get tLookup (transactionCache st) txid) = None" by simp
    from getTransaction_miss_requests[OF this] g
    show "SimpleCache_get tLookup (transactionCache st) txid
               = (None, (transactionCache st)\<lparr> cache := fmdrop txid (cache (transactionCache st)) \<rparr>)
           \<and> txRequests (snd (getTransaction R N tLookup tStore st txid includeRaw))
               = txRequests st @ [txid]" by simp
  qed
  have e: "\<forall>info st1. fst (SimpleCache_get tLookup (transactionCache st) txid) = None
                  \<and> getTransaction R N tLookup tStore st txid includeRaw = (Inr info, st1)
                  \<and> tNext - tStore \<le> 300 * 1000 \<longrightarrow>
             txRequests st1 = txRequests st @ [txid]
           \<and> getTransaction R' N' tNext tStore' st1 txid includeRaw' = (Inr info, st1)"
  proof (intro allI impI)
    fix info st1
    assume h: "fst (SimpleCache_get tLookup (transactionCache st) txid) = None
                  \<and> getTransaction R N tLookup tStore st txid includeRaw = (Inr info, st1)
                  \<and> tNext - tStore \<le> 300 * 1000"
    then have m: "fst (SimpleCache_get tLookup (transactionCache st) txid) = None"
      and g: "getTransaction R N tLookup tStore st txid includeRaw = (Inr info, st1)"
      and w: "tNext - tStore \<le> 300 * 1000" by simp_all
    from getTransaction_miss_ok[OF m g] obtain ords hex where
      l: "fmlookup (cache (transactionCache st1)) txid
            = Some \<lparr> data = \<lparr> basicTransaction = info, extractedOrdinals = ords, rawHex = hex \<rparr>,
                      timestamp = tStore \<rparr>"
      and t: "ttlMs (transactionCache st1) = ttlMs (transactionCache st)"
      and q: "txRequests st1 = txRequests st @ [txid]" by blast
    have "getTransaction R' N' tNext tStore' st1 txid includeRaw' = (Inr info, st1)"
      using getTransaction_hit[OF l, of tNext R' N' tStore' includeRaw'] t ttl w by simp
    with q show "txRequests st1 = txRequests st @ [txid]
           \<and> getTransaction R' N' tNext tStore' st1 txid includeRaw' = (Inr info, st1)" by simp
  qed
  from a b c d e show ?thesis by blast
qed


theorem getTransaction_cache_witness:
  "ttlMs (transactionCache sampleClient) = 300 * 1000
   \<and> getTransaction sampleRuntime sampleNetwork 1000 1200 sampleClient ''ab'' False = (Inr cachedInfo, cachedClient)
   \<and> txRequests cachedClient = [''ab'']
   \<and> getTransaction sampleRuntime sampleNetwork 301200 301250 cachedClient ''ab'' True = (Inr cachedInfo, cachedClient)
   \<and> fst (SimpleCache_get 301201 (transactionCache cachedClient) ''ab'') = None
   \<and> txRequests (snd (getTransaction sampleRuntime sampleNetwork 301201 301250 cachedClient ''ab'' False))
       = [''ab'', ''ab'']"
proof -
  have t0: "ttlMs (transactionCache sampleClient) = 300 * 1000" by (rule sampleClient_ttl)
  have m: "fst (SimpleCache_get 1000 (transactionCache sampleClient) ''ab'') = None" by code_simp
  have w: "(301200::int) - 1200 \<le> 300 * 1000" by simp
  note T = getTransaction_cache[OF t0, where R = sampleRuntime and N = sampleNetwork and tLookup = 1000
         and tStore = 1200 and txid = "''ab''" and includeRaw = False and tNext = 301200
         and R' = sampleRuntime and N' = sampleNetwork and tStore' = 301250 and includeRaw' = True]
  note T5 = T[THEN conjunct2, THEN conjunct2, THEN conjunct2, THEN conjunct2, rule_format,
              of cachedInfo cachedClient]
  from T5[OF conjI[OF m conjI[OF cached_run w]]]
  have a: "txRequests cachedClient = txRequests sampleClient @ [''ab'']"
    and b: "getTransaction sampleRuntime sampleNetwork 301200 301250 cachedClient ''ab'' True = (Inr cachedInfo, cachedClient)"
    by simp_all
  have q0: "txRequests sampleClient = []" by (simp add: sampleClient_def OrdinalsClient_new_def)
  from T[THEN conjunct2, THEN conjunct1]
  have t1: "ttlMs (transactionCache cachedClient) = 300 * 1000" by (simp add: cachedClient_def)
  obtain entry where l: "fmlookup (cache (transactionCache cachedClient)) ''ab'' = Some entry"
    and ts: "timestamp entry = 1200"
    using getTransaction_miss_ok[OF m cached_run] by force
  have x: "301201 - timestamp entry > 300 * 1000" using ts by simp
  note U = getTransaction_cache[OF t1, where R = sampleRuntime and N = sampleNetwork and tLookup = 301201
         and tStore = 301250 and txid = "''ab''" and includeRaw = False]
  note U4 = U[THEN conjunct2, THEN conjunct2, THEN conjunct2, THEN conjunct1, rule_format, of entry]
  from U4[OF conjI[OF l x]]
  have cd: "SimpleCache_get 301201 (transactionCache cachedClient) ''ab''
               = (None, (transactionCache cachedClient)\<lparr> cache := fmdrop ''ab'' (cache (transactionCache cachedClient)) \<rparr>)
    \<and> txRequests (snd (getTransaction sampleRuntime sampleNetwork 301201 301250 cachedClient ''ab'' False))
               = txRequests cachedClient @ [''ab'']" .
  then have c: "fst (SimpleCache_get 301201 (transactionCache cachedClient) ''ab'') = None"
    and d: "txRequests (snd (getTransaction sampleRuntime sampleNetwork 301201 301250 cachedClient ''ab'' False))
               = txRequests cachedClient @ [''ab'']"
    by simp_all
  from t0 cached_run a b c d q0 show ?thesis by simp
qed

text \<open>
  Claim C7. When the lookup misses and the fetch fails, the call ends with the error
  (rethrown through the \<^verbatim>\<open>catch\<close> clause); the cache is exactly as the lookup left it, so it
  has no entry for the txid, the other entries are untouched, and when there was no entry
  for the txid before the call the cache is unchanged; the txid is not left in
  \<open>requestCache\<close>; and the next call for the txid, at any time, sends a request again.
\<close>

theorem getTransaction_failed_fetch:
  assumes miss: "fst (SimpleCache_get tLookup (transactionCache st) txid) = None"
    and fails: "fetchFails N txid"
    and run: "getTransaction R N tLookup tStore st txid includeRaw = (r, st')"
  shows "(\<exists>ex. r = Inl (rethrow R ''Transaction Fetch/Process'' txid ex))
       \<and> transactionCache st' = snd (SimpleCache_get tLookup (transactionCache st) txid)
       \<and> fmlookup (cache (transactionCache st')) txid = None
       \<and> (\<forall>k. k \<noteq> txid \<longrightarrow>
             fmlookup (cache (transactionCache st')) k = fmlookup (cache (transactionCache st)) k)
       \<and> (fmlookup (cache (transactionCache st)) txid = None \<longrightarrow>
             transactionCache st' = transactionCache st)
       \<and> (\<forall>t k. tLookup \<le> t \<longrightarrow>
             fst (SimpleCache_get t (transactionCache st') k)
               = fst (SimpleCache_get t (transactionCache st) k))
       \<and> txid |\<notin>| requestCache st'
       \<and> txRequests st' = txRequests st @ [txid]
       \<and> (\<forall>t t' raw'. txRequests (snd (getTransaction R N t t' st' txid raw'))
                        = txRequests st' @ [txid])"
proof -
  obtain c1 where g: "SimpleCache_get tLookup (transactionCache st) txid = (None, c1)"
    using miss by (cases "SimpleCache_get tLookup (transactionCache st) txid") simp
  let ?st1 = "st\<lparr> transactionCache := c1, requestCache := finsert txid (requestCache st) \<rparr>"
  from fetchAndProcess_fails[OF fails, of R tStore ?st1 includeRaw] obtain ex where
    f: "fetchAndProcess R N tStore ?st1 txid includeRaw
          = (Inl ex, ?st1\<lparr> txRequests := txRequests ?st1 @ [txid] \<rparr>)" by blast
  from run g f have r: "r = Inl (rethrow R ''Transaction Fetch/Process'' txid ex)"
    and s: "st' = (?st1\<lparr> txRequests := txRequests ?st1 @ [txid] \<rparr>)
                    \<lparr> requestCache := requestCache (?st1\<lparr> txRequests := txRequests ?st1 @ [txid] \<rparr>) |-| {|txid|} \<rparr>"
    by (simp_all add: getTransaction_def)
  have c: "transactionCache st' = c1" using s by simp
  have c': "transactionCache st' = snd (SimpleCache_get tLookup (transactionCache st) txid)"
    using c g by simp
  have n: "fmlookup (cache (transactionCache st')) txid = None"
    unfolding c' using miss by (rule SimpleCache_get_None_lookup)
  have o: "\<forall>k. k \<noteq> txid \<longrightarrow>
             fmlookup (cache (transactionCache st')) k = fmlookup (cache (transactionCache st)) k"
    unfolding c' by (simp add: SimpleCache_get_other)
  have u: "fmlookup (cache (transactionCache st)) txid = None \<longrightarrow>
             transactionCache st' = transactionCache st"
    unfolding c' by (simp add: SimpleCache_get_absent)
  have v: "\<forall>t k. tLookup \<le> t \<longrightarrow>
             fst (SimpleCache_get t (transactionCache st') k)
               = fst (SimpleCache_get t (transactionCache st) k)"
    unfolding c' using SimpleCache_get_after_miss[OF miss] by blast
  have q: "txid |\<notin>| requestCache st'" using s by simp
  have x: "txRequests st' = txRequests st @ [txid]" using s by simp
  have again: "\<forall>t t' raw'. txRequests (snd (getTransaction R N t t' st' txid raw'))
                        = txRequests st' @ [txid]"
  proof (intro allI)
    fix t t' raw'
    have "fst (SimpleCache_get t (transactionCache st') txid) = None"
      using n by (simp add: SimpleCache_get_absent)
    then show "txRequests (snd (getTransaction R N t t' st' txid raw')) = txRequests st' @ [txid]"
      by (rule getTransaction_miss_requests)
  qed
  from r c' n o u v q x again show ?thesis by blast
qed


theorem getTransaction_failed_fetch_witness:
  "fst (SimpleCache_get 1000 (transactionCache sampleClient) ''zz'') = None
   \<and> fetchFails sampleNetwork ''zz''
   \<and> fst (getTransaction sampleRuntime sampleNetwork 1000 1200 sampleClient ''zz'' False)
       = Inl (BitcoinError ''Blockchain API error: Transaction not found: 404'')
   \<and> transactionCache (snd (getTransaction sampleRuntime sampleNetwork 1000 1200 sampleClient ''zz'' False))
       = transactionCache sampleClient
   \<and> txRequests (snd (getTransaction sampleRuntime sampleNetwork 2000 2200
          (snd (getTransaction sampleRuntime sampleNetwork 1000 1200 sampleClient ''zz'' False)) ''zz'' False))
       = [''zz'', ''zz'']"
proof -
  let ?run = "getTransaction sampleRuntime sampleNetwork 1000 1200 sampleClient ''zz'' False"
  have m: "fst (SimpleCache_get 1000 (transactionCache sampleClient) ''zz'') = None" by code_simp
  have f: "fetchFails sampleNetwork ''zz''" by code_simp
  have r: "fst ?run = Inl (BitcoinError ''Blockchain API error: Transaction not found: 404'')"
    by code_simp
  have a: "fmlookup (cache (transactionCache sampleClient)) ''zz'' = None" by code_simp
  have q: "txRequests sampleClient = []" by (simp add: sampleClient_def OrdinalsClient_new_def)
  have p: "?run = (fst ?run, snd ?run)" by simp
  note T = getTransaction_failed_fetch[OF m f p]
  from T a have c: "transactionCache (snd ?run) = transactionCache sampleClient" by blast
  from T have x: "txRequests (snd ?run) = txRequests sampleClient @ [''zz'']" by blast
  from T have "txRequests (snd (getTransaction sampleRuntime sampleNetwork 2000 2200 (snd ?run) ''zz'' False))
                 = txRequests (snd ?run) @ [''zz'']" by blast
  with x q have y: "txRequests (snd (getTransaction sampleRuntime sampleNetwork 2000 2200 (snd ?run) ''zz'' False))
                 = [''zz'', ''zz'']" by simp
  from m f r c y show ?thesis by blast
qed


section \<open>The formatter\<close>

text \<open>
  Claim C8. For the content type \<^verbatim>\<open>application/json\<close> the formatter never returns
  \<^verbatim>\<open>null\<close>: when \<^verbatim>\<open>JSON.parse\<close> throws on the payload text it returns that text, and when
  the payload parses it returns the value printed by \<^verbatim>\<open>JSON.stringify(v, null, 2)\<close>. The
  file system is not touched.
\<close>

theorem formatInscriptionContent_json:
  assumes "ctype = ''application/json''"
  shows "(\<forall>e. rt_jsonParse R (rt_toUtf8 R contentBuffer) = Inl e \<longrightarrow>
            formatInscriptionContent R dir fs ctype contentBuffer opt txid index
              = (Some (rt_toUtf8 R contentBuffer), fs))
       \<and> (\<forall>jsonData. rt_jsonParse R (rt_toUtf8 R contentBuffer) = Inr jsonData \<longrightarrow>
            formatInscriptionContent R dir fs ctype contentBuffer opt txid index
              = (Some (rt_jsonStringify R jsonData), fs))
       \<and> fst (formatInscriptionContent R dir fs ctype contentBuffer opt txid index) \<noteq> None"
  using assms
  by (auto simp: formatInscriptionContent_def formatInscriptionContent_try_def split: sum.splits)


theorem formatInscriptionContent_json_witness:
  "formatInscriptionContent sampleRuntime ''/tmp'' [] ''application/json'' [0x68, 0x65, 0x6c, 0x6c, 0x6f]
       Base64 (Some ''ab'') 0 = (Some ''hello'', [])
   \<and> formatInscriptionContent sampleRuntime ''/tmp'' [] ''application/json'' [0x7b, 0x7d]
       Base64 (Some ''ab'') 0 = (Some ''{}'', [])"
proof -
  have u1: "rt_toUtf8 sampleRuntime [0x68, 0x65, 0x6c, 0x6c, 0x6f] = ''hello''" by code_simp
  have u2: "rt_toUtf8 sampleRuntime [0x7b, 0x7d] = ''{}''" by code_simp
  have p1: "rt_jsonParse sampleRuntime (rt_toUtf8 sampleRuntime [0x68, 0x65, 0x6c, 0x6c, 0x6f])
              = Inl (JsError ''Unexpected token'')" by code_simp
  have p2: "rt_jsonParse sampleRuntime (rt_toUtf8 sampleRuntime [0x7b, 0x7d]) = Inr ''{}''" by code_simp
  have s2: "rt_jsonStringify sampleRuntime ''{}'' = ''{}''" by code_simp
  have j: "''application/json'' = ''application/json''" by simp
  from formatInscriptionContent_json[OF j, of sampleRuntime "[0x68, 0x65, 0x6c, 0x6c, 0x6f]"
         "''/tmp''" "[]" Base64 "Some ''ab''" 0] p1 u1
  have a: "formatInscriptionContent sampleRuntime ''/tmp'' [] ''application/json'' [0x68, 0x65, 0x6c, 0x6c, 0x6f]
       Base64 (Some ''ab'') 0 = (Some ''hello'', [])" by simp
  from formatInscriptionContent_json[OF j, of sampleRuntime "[0x7b, 0x7d]"
         "''/tmp''" "[]" Base64 "Some ''ab''" 0] p2 s2
  have b: "formatInscriptionContent sampleRuntime ''/tmp'' [] ''application/json'' [0x7b, 0x7d]
       Base64 (Some ''ab'') 0 = (Some ''{}'', [])" by simp
  from a b show ?thesis by simp
qed


lemma formatAll_fst:
  "fst (formatAll R dir opt txid index ords (decoded, fs))
     = decoded @ filter (\<lambda>s. s \<noteq> []) (nonNull (formatResults R dir opt txid index ords fs))"
proof (induction ords arbitrary: index decoded fs)
  case Nil
  show ?case by simp
next
  case (Cons x xs)
  obtain r fs' where f: "formatInscriptionContent R dir fs (contentType x) (content x) opt (Some txid) index = (r, fs')"
    by (cases "formatInscriptionContent R dir fs (contentType x) (content x) opt (Some txid) index")
  show ?case
  proof (cases r)
    case None
    with f show ?thesis by (simp add: Cons.IH)
  next
    case (Some s)
    with f show ?thesis by (simp add: Cons.IH)
  qed
qed

lemma length_formatResults: "length (formatResults R dir opt txid index ords fs) = length ords"
  by (induction ords arbitrary: index fs) (auto split: prod.splits)

lemma length_nonNull: "length (nonNull rs) \<le> length rs"
  by (induction rs rule: nonNull.induct) auto

lemma set_nonNull: "s \<in> set (nonNull rs) \<longleftrightarrow> Some s \<in> set rs"
  by (induction rs rule: nonNull.induct) auto

lemma formatExtracted_fst:
  "fst (formatExtracted R opt txid ords st)
     = filter (\<lambda>s. s \<noteq> []) (nonNull (formatResults R (imageTempDir st) opt txid 0 ords (files st)))"
proof (cases ords)
  case Nil
  then show ?thesis by (simp add: formatExtracted_def)
next
  case (Cons x xs)
  obtain ds fs' where f: "formatAll R (imageTempDir st) opt txid 0 ords ([], files st) = (ds, fs')"
    by (cases "formatAll R (imageTempDir st) opt txid 0 ords ([], files st)")
  from formatAll_fst[of R "imageTempDir st" opt txid 0 ords "[]" "files st"] f
  have "ds = filter (\<lambda>s. s \<noteq> []) (nonNull (formatResults R (imageTempDir st) opt txid 0 ords (files st)))"
    by simp
  with f Cons show ?thesis by (simp add: formatExtracted_def)
qed

lemma decodeWitness_source:
  assumes "decodeWitness R N tFirst tLookup tStore tAgain st0 txid opt = (Inr ds, st')"
  shows "\<exists>ords' st1. ds = fst (formatExtracted R opt txid ords' st1)
           \<and> (case fst (SimpleCache_get tFirst (transactionCache st0) txid) of
                 Some cached \<Rightarrow> ords' = extractedOrdinals cached
               | None \<Rightarrow>
                   (\<exists>info st2.
                      getTransaction R N tLookup tStore
                        (st0\<lparr> transactionCache := snd (SimpleCache_get tFirst (transactionCache st0) txid) \<rparr>)
                        txid False = (Inr info, st2)
                    \<and> ords' = (case fst (SimpleCache_get tAgain (transactionCache st2) txid) of
                                 Some newCached \<Rightarrow> extractedOrdinals newCached
                               | None \<Rightarrow> [])))"
proof (cases "SimpleCache_get tFirst (transactionCache st0) txid")
  case (Pair r c1)
  show ?thesis
  proof (cases r)
    case (Some cached)
    with Pair assms have "ds = fst (formatExtracted R opt txid (extractedOrdinals cached) (st0\<lparr> transactionCache := c1 \<rparr>))"
      by (auto simp: decodeWitness_def split: prod.splits)
    with Pair Some show ?thesis by auto
  next
    case None
    obtain g st2 where g: "getTransaction R N tLookup tStore (st0\<lparr> transactionCache := c1 \<rparr>) txid False = (g, st2)"
      by (cases "getTransaction R N tLookup tStore (st0\<lparr> transactionCache := c1 \<rparr>) txid False")
    with Pair None assms obtain info where i: "g = Inr info"
      by (cases g) (auto simp: decodeWitness_def)
    obtain r3 c3 where a: "SimpleCache_get tAgain (transactionCache st2) txid = (r3, c3)"
      by (cases "SimpleCache_get tAgain (transactionCache st2) txid")
    let ?ords = "case r3 of Some newCached \<Rightarrow> extractedOrdinals newCached | None \<Rightarrow> []"
    from Pair None assms g i a
    have "ds = fst (formatExtracted R opt txid ?ords (st2\<lparr> transactionCache := c3 \<rparr>))"
      by (cases r3) (auto simp: decodeWitness_def split: prod.splits)
    with Pair None g i a show ?thesis by auto
  qed
qed

text \<open>
  Claim C10, as amended. The array built by \<^verbatim>\<open>decodeWitness\<close> holds, in scan order, the
  results of the formatting step except those that are \<^verbatim>\<open>null\<close> or the empty string (the
  push is guarded by a truthiness test). Every element is therefore a non-empty string
  that the formatting step returned, and the array is no longer than the list of extracted
  inscriptions.
\<close>

theorem decodeWitness_formatted:
  "fst (formatExtracted R opt txid ords st)
     = filter (\<lambda>s. s \<noteq> []) (nonNull (formatResults R (imageTempDir st) opt txid 0 ords (files st)))
   \<and> length (formatResults R (imageTempDir st) opt txid 0 ords (files st)) = length ords
   \<and> (\<forall>s \<in> set (fst (formatExtracted R opt txid ords st)).
         s \<noteq> [] \<and> Some s \<in> set (formatResults R (imageTempDir st) opt txid 0 ords (files st)))
   \<and> length (fst (formatExtracted R opt txid ords st)) \<le> length ords
   \<and> (\<forall>ds st'. decodeWitness R N tFirst tLookup tStore tAgain st0 txid opt = (Inr ds, st') \<longrightarrow>
         (\<exists>ords' st1. ds = fst (formatExtracted R opt txid ords' st1)
            \<and> (case fst (SimpleCache_get tFirst (transactionCache st0) txid) of
                 Some cached \<Rightarrow> ords' = extractedOrdinals cached
               | None \<Rightarrow>
                   (\<exists>info st2.
                      getTransaction R N tLookup tStore
                        (st0\<lparr> transactionCache := snd (SimpleCache_get tFirst (transactionCache st0) txid) \<rparr>)
                        txid False = (Inr info, st2)
                    \<and> ords' = (case fst (SimpleCache_get tAgain (transactionCache st2) txid) of
                                 Some newCached \<Rightarrow> extractedOrdinals newCached
                               | None \<Rightarrow> [])))
            \<and> (\<forall>s \<in> set ds. s \<noteq> []) \<and> length ds \<le> length ords'))"
proof -
  let ?rs = "\<lambda>ords st. formatResults R (imageTempDir st) opt txid 0 ords (files st)"
  have a: "\<And>ords st. fst (formatExtracted R opt txid ords st) = filter (\<lambda>s. s \<noteq> []) (nonNull (?rs ords st))"
    by (rule formatExtracted_fst)
  have b: "\<And>ords st. length (?rs ords st) = length ords" by (rule length_formatResults)
  have c: "\<And>ords st. \<forall>s \<in> set (fst (formatExtracted R opt txid ords st)). s \<noteq> [] \<and> Some s \<in> set (?rs ords st)"
    unfolding a by (simp add: set_nonNull)
  have d: "\<And>ords st. length (fst (formatExtracted R opt txid ords st)) \<le> length ords"
  proof -
    fix ords st
    have "length (fst (formatExtracted R opt txid ords st)) \<le> length (nonNull (?rs ords st))"
      unfolding a by simp
    also have "\<dots> \<le> length (?rs ords st)" by (rule length_nonNull)
    finally show "length (fst (formatExtracted R opt txid ords st)) \<le> length ords"
      by (simp add: length_formatResults)
  qed
  have e: "\<forall>ds st'. decodeWitness R N tFirst tLookup tStore tAgain st0 txid opt = (Inr ds, st') \<longrightarrow>
         (\<exists>ords' st1. ds = fst (formatExtracted R opt txid ords' st1)
            \<and> (case fst (SimpleCache_get tFirst (transactionCache st0) txid) of
                 Some cached \<Rightarrow> ords' = extractedOrdinals cached
               | None \<Rightarrow>
                   (\<exists>info st2.
                      getTransaction R N tLookup tStore
                        (st0\<lparr> transactionCache := snd (SimpleCache_get tFirst (transactionCache st0) txid) \<rparr>)
                        txid False = (Inr info, st2)
                    \<and> ords' = (case fst (SimpleCache_get tAgain (transactionCache st2) txid) of
                                 Some newCached \<Rightarrow> extractedOrdinals newCached
                               | None \<Rightarrow> [])))
            \<and> (\<forall>s \<in> set ds. s \<noteq> []) \<and> length ds \<le> length ords')"
  proof (intro allI impI)
    fix ds st'
    assume "decodeWitness R N tFirst tLookup tStore tAgain st0 txid opt = (Inr ds, st')"
    from decodeWitness_source[OF this] obtain ords' st1 where
      x: "ds = fst (formatExtracted R opt txid ords' st1)"
      and y: "case fst (SimpleCache_get tFirst (transactionCache st0) txid) of
                 Some cached \<Rightarrow> ords' = extractedOrdinals cached
               | None \<Rightarrow>
                   (\<exists>info st2.
                      getTransaction R N tLookup tStore
                        (st0\<lparr> transactionCache := snd (SimpleCache_get tFirst (transactionCache st0) txid) \<rparr>)
                        txid False = (Inr info, st2)
                    \<and> ords' = (case fst (SimpleCache_get tAgain (transactionCache st2) txid) of
                                 Some newCached \<Rightarrow> extractedOrdinals newCached
                               | None \<Rightarrow> []))" by blast
    from c d x have "(\<forall>s \<in> set ds. s \<noteq> []) \<and> length ds \<le> length ords'" by blast
    with x y
    show "\<exists>ords' st1. ds = fst (formatExtracted R opt txid ords' st1)
            \<and> (case fst (SimpleCache_get tFirst (transactionCache st0) txid) of
                 Some cached \<Rightarrow> ords' = extractedOrdinals cached
               | None \<Rightarrow>
                   (\<exists>info st2.
                      getTransaction R N tLookup tStore
                        (st0\<lparr> transactionCache := snd (SimpleCache_get tFirst (transactionCache st0) txid) \<rparr>)
                        txid False = (Inr info, st2)
                    \<and> ords' = (case fst (SimpleCache_get tAgain (transactionCache st2) txid) of
                                 Some newCached \<Rightarrow> extractedOrdinals newCached
                               | None \<Rightarrow> [])))
            \<and> (\<forall>s \<in> set ds. s \<noteq> []) \<and> length ds \<le> length ords'" by blast
  qed
  from a b c d e show ?thesis by blast
qed

theorem decodeWitness_formatted_witness:
  "map contentType (extractAllOrdinals readOnlyRuntime sampleTx)
     = [''text/plain'', ''text/plain'', ''image/png'', ''text/plain'']
   \<and> formatResults readOnlyRuntime ''/tmp'' File ''ef'' 0 (extractAllOrdinals readOnlyRuntime sampleTx) [''/tmp'']
     = [Some ''hello'', Some [], None, Some ''hello'']
   \<and> fst (decodeWitness readOnlyRuntime sampleNetwork 0 10 20 30 sampleClient ''ef'' File)
     = Inr [''hello'', ''hello'']
   \<and> (\<exists>ords' st1. [''hello'', ''hello''] = fst (formatExtracted readOnlyRuntime File ''ef'' ords' st1)
        \<and> length [''hello'', ''hello''] \<le> length ords')"
proof -
  let ?run = "decodeWitness readOnlyRuntime sampleNetwork 0 10 20 30 sampleClient ''ef'' File"
  have a: "map contentType (extractAllOrdinals readOnlyRuntime sampleTx)
     = [''text/plain'', ''text/plain'', ''image/png'', ''text/plain'']" by code_simp
  have b: "formatResults readOnlyRuntime ''/tmp'' File ''ef'' 0 (extractAllOrdinals readOnlyRuntime sampleTx) [''/tmp'']
     = [Some ''hello'', Some [], None, Some ''hello'']" by code_simp
  have c: "fst ?run = Inr [''hello'', ''hello'']" by code_simp
  then have p: "?run = (Inr [''hello'', ''hello''], snd ?run)" by (simp add: prod_eq_iff)
  note T = decodeWitness_formatted[of readOnlyRuntime File "''ef''" "[]" sampleClient
             sampleNetwork 0 10 20 30 sampleClient]
  note T5 = T[THEN conjunct2, THEN conjunct2, THEN conjunct2, THEN conjunct2, rule_format, OF p]
  from T5 have "\<exists>ords' st1. [''hello'', ''hello''] = fst (formatExtracted readOnlyRuntime File ''ef'' ords' st1)
            \<and> (\<forall>s \<in> set [''hello'', ''hello'']. s \<noteq> []) \<and> length [''hello'', ''hello''] \<le> length ords'"
    by blast
  then have d: "\<exists>ords' st1. [''hello'', ''hello''] = fst (formatExtracted readOnlyRuntime File ''ef'' ords' st1)
        \<and> length [''hello'', ''hello''] \<le> length ords'" by blast
  from a b c d show ?thesis by blast
qed


text \<open>
  The claim C10 as first worded fails: \<open>emptyTx\<close> carries one inscription of type
  \<^verbatim>\<open>text/plain\<close> with an empty body; its formatting step returns the empty string, not
  \<^verbatim>\<open>null\<close>, and \<^verbatim>\<open>decodeWitness\<close> returns an empty array.
\<close>

theorem decodeWitness_formatted_counterexample:
  "map contentType (extractAllOrdinals sampleRuntime emptyTx) = [''text/plain'']
   \<and> formatResults sampleRuntime ''/tmp'' Base64 ''ab'' 0 (extractAllOrdinals sampleRuntime emptyTx) [''/tmp'']
       = [Some '''']
   \<and> nonNull (formatResults sampleRuntime ''/tmp'' Base64 ''ab'' 0
                 (extractAllOrdinals sampleRuntime emptyTx) [''/tmp'']) = ['''']
   \<and> fst (decodeWitness sampleRuntime sampleNetwork 0 10 20 30 sampleClient ''ab'' Base64) = Inr []"
  by code_simp

end
